theory Spec2Isabelle
  imports Main "HOL-Library.Word"
begin

section \<open>The flashcard generator page: a model of public/script.js\<close>

text \<open>
  The script is a browser-side controller. Its state is the part of the page it reads and
  writes (class lists, text contents, the file input, session storage) together with its one
  variable \<open>currentFlashcards\<close>. Each event handler is modelled as a function on that
  state; what the environment answers during one run of a handler (the file reader, the
  network, the engine's wording of a TypeError) is an explicit argument. A handler runs
  here from its first to its last statement; interleavings of two handlers at an
  \<open>await\<close> are not modelled.
\<close>

subsection \<open>Strings\<close>

text \<open>
  A JavaScript string is a sequence of UTF-16 code units. Literals of the source that are
  ASCII are written with \<open>js\<close>; the three pictographs of the source are given by their
  code units.
\<close>

type_synonym jsstring = "16 word list"

definition js :: "string \<Rightarrow> jsstring" where
  "js s = map of_char s"

definition cross_mark :: jsstring where
  "cross_mark = [0x274C]"

definition check_mark :: jsstring where
  "check_mark = [0x2705]"

definition brain :: jsstring where
  "brain = [0xD83E, 0xDDE0]"

fun decimal :: "nat \<Rightarrow> jsstring" where
  "decimal n =
     (if n < 10 then [48 + of_nat n] else decimal (n div 10) @ [48 + of_nat (n mod 10)])"

declare decimal.simps [simp del]

fun join :: "jsstring \<Rightarrow> jsstring list \<Rightarrow> jsstring" where
  "join sep [] = []"
| "join sep [x] = x"
| "join sep (x # y # ys) = x @ sep @ join sep (y # ys)"

text \<open>\<open>s.split(sep)\<close> for a separator of one code unit.\<close>

fun String_split :: "16 word \<Rightarrow> jsstring \<Rightarrow> jsstring list" where
  "String_split sep [] = [[]]"
| "String_split sep (c # cs) =
     (if c = sep then [] # String_split sep cs
      else (case String_split sep cs of
              [] \<Rightarrow> [[c]]
            | p # ps \<Rightarrow> (c # p) # ps))"

subsection \<open>Values\<close>

text \<open>
  The values the script handles are those of a parsed JSON text, \<open>undefined\<close>, and the
  lengths and positions it computes. \<open>JNum i\<close> is the number with the integer value
  \<open>i\<close>; numbers with a fraction are outside the model, and the decimal form given
  to an integer below is the engine's for integers that a double holds exactly.
  \<open>JObj ps\<close> lists the own properties of an object in the order the engine
  enumerates them.
\<close>

datatype jsval =
    JUndefined
  | JNull
  | JBool bool
  | JNum int
  | JStr jsstring
  | JArr "jsval list"
  | JObj "(jsstring \<times> jsval) list"

text \<open>
  \<open>TypeError\<close> is raised by an operation of the script itself; \<open>Rejected m\<close> is a
  promise of the environment rejected with a reason whose \<open>message\<close> property is
  \<open>m\<close> (absent when \<open>None\<close>).
\<close>

datatype exn = TypeError | Rejected "jsstring option"

fun truthy :: "jsval \<Rightarrow> bool" where
  "truthy JUndefined = False"
| "truthy JNull = False"
| "truthy (JBool b) = b"
| "truthy (JNum i) = (i \<noteq> 0)"
| "truthy (JStr s) = (s \<noteq> [])"
| "truthy (JArr xs) = True"
| "truthy (JObj ps) = True"

definition Number_toString :: "int \<Rightarrow> jsstring" where
  "Number_toString i = (if i < 0 then js ''-'' @ decimal (nat (- i)) else decimal (nat i))"

fun sequenceE :: "('e + 'a) list \<Rightarrow> 'e + 'a list" where
  "sequenceE [] = Inr []"
| "sequenceE (r # rs) =
     (case r of
        Inl e \<Rightarrow> Inl e
      | Inr x \<Rightarrow> (case sequenceE rs of Inl e \<Rightarrow> Inl e | Inr xs \<Rightarrow> Inr (x # xs)))"

text \<open>
  The conversion to a string used by \<open>+\<close> and by template literals. An array is joined
  with commas; an object is \<open>[object Object]\<close> unless an own property shadows
  \<open>toString\<close>, in which case no primitive value is found.
\<close>

fun ToString :: "jsval \<Rightarrow> exn + jsstring" where
  "ToString JUndefined = Inr (js ''undefined'')"
| "ToString JNull = Inr (js ''null'')"
| "ToString (JBool b) = Inr (if b then js ''true'' else js ''false'')"
| "ToString (JNum i) = Inr (Number_toString i)"
| "ToString (JStr s) = Inr s"
| "ToString (JArr xs) =
     (case sequenceE (map (\<lambda>x. if x = JUndefined \<or> x = JNull then Inr [] else ToString x) xs) of
        Inl e \<Rightarrow> Inl e
      | Inr parts \<Rightarrow> Inr (join (js '','') parts))"
| "ToString (JObj ps) =
     (if js ''toString'' \<in> fst ` set ps then Inl TypeError else Inr (js ''[object Object]''))"

definition string_plus :: "jsstring \<Rightarrow> jsval \<Rightarrow> exn + jsstring" where
  "string_plus l v = (case ToString v of Inl e \<Rightarrow> Inl e | Inr r \<Rightarrow> Inr (l @ r))"

text \<open>
  Reading a property. The script reads only \<open>success\<close>, \<open>authenticated\<close>,
  \<open>flashcards\<close>, \<open>error\<close>, \<open>question\<close>, \<open>answer\<close> and \<open>length\<close>; of these only
  \<open>length\<close> is ever inherited (by strings and arrays).
\<close>

definition own_property :: "(jsstring \<times> jsval) list \<Rightarrow> jsstring \<Rightarrow> jsval" where
  "own_property ps p = (case map_of ps p of None \<Rightarrow> JUndefined | Some v \<Rightarrow> v)"

fun get_prop :: "jsval \<Rightarrow> jsstring \<Rightarrow> exn + jsval" where
  "get_prop JUndefined p = Inl TypeError"
| "get_prop JNull p = Inl TypeError"
| "get_prop (JBool b) p = Inr JUndefined"
| "get_prop (JNum i) p = Inr JUndefined"
| "get_prop (JStr s) p = Inr (if p = js ''length'' then JNum (int (length s)) else JUndefined)"
| "get_prop (JArr xs) p = Inr (if p = js ''length'' then JNum (int (length xs)) else JUndefined)"
| "get_prop (JObj ps) p = Inr (own_property ps p)"

definition element_at :: "jsstring list \<Rightarrow> nat \<Rightarrow> jsval" where
  "element_at xs i = (if i < length xs then JStr (xs ! i) else JUndefined)"

subsection \<open>JSON.stringify\<close>

definition hexdigit :: "nat \<Rightarrow> 16 word" where
  "hexdigit d = (if d < 10 then of_nat (48 + d) else of_nat (87 + d))"

definition unicode_escape :: "16 word \<Rightarrow> jsstring" where
  "unicode_escape c =
     [0x5C, 0x75, hexdigit (unat c div 4096), hexdigit (unat c div 256 mod 16),
      hexdigit (unat c div 16 mod 16), hexdigit (unat c mod 16)]"

definition is_high :: "16 word \<Rightarrow> bool" where
  "is_high c = (0xD800 \<le> c \<and> c \<le> 0xDBFF)"

definition is_low :: "16 word \<Rightarrow> bool" where
  "is_low c = (0xDC00 \<le> c \<and> c \<le> 0xDFFF)"

definition quote_unit :: "16 word \<Rightarrow> jsstring" where
  "quote_unit c =
     (if c = 0x08 then [0x5C, 0x62]
      else if c = 0x09 then [0x5C, 0x74]
      else if c = 0x0A then [0x5C, 0x6E]
      else if c = 0x0C then [0x5C, 0x66]
      else if c = 0x0D then [0x5C, 0x72]
      else if c = 0x22 then [0x5C, 0x22]
      else if c = 0x5C then [0x5C, 0x5C]
      else if c < 0x20 \<or> is_high c \<or> is_low c then unicode_escape c
      else [c])"

text \<open>A surrogate pair is copied; a surrogate on its own is escaped.\<close>

fun quote_units :: "jsstring \<Rightarrow> jsstring" where
  "quote_units [] = []"
| "quote_units [c] = quote_unit c"
| "quote_units (c # d # cs) =
     (if is_high c \<and> is_low d then c # d # quote_units cs
      else quote_unit c @ quote_units (d # cs))"

definition QuoteJSONString :: "jsstring \<Rightarrow> jsstring" where
  "QuoteJSONString s = [0x22] @ quote_units s @ [0x22]"

definition wrap :: "jsstring \<Rightarrow> jsstring \<Rightarrow> 16 word \<Rightarrow> 16 word \<Rightarrow> jsstring list \<Rightarrow> jsstring" where
  "wrap gap stepback l r partial =
     (if partial = [] then [l, r]
      else if gap = [] then [l] @ join [0x2C] partial @ [r]
      else [l, 0x0A] @ (stepback @ gap) @ join ([0x2C, 0x0A] @ stepback @ gap) partial
           @ [0x0A] @ stepback @ [r])"

text \<open>
  \<open>SerializeJSONProperty\<close> with the gap and the current indentation. \<open>undefined\<close> has
  no JSON text: it is left out of an object and written \<open>null\<close> in an array.
\<close>

fun SerializeJSON :: "jsstring \<Rightarrow> jsstring \<Rightarrow> jsval \<Rightarrow> jsstring option" where
  "SerializeJSON gap ind JUndefined = None"
| "SerializeJSON gap ind JNull = Some (js ''null'')"
| "SerializeJSON gap ind (JBool b) = Some (if b then js ''true'' else js ''false'')"
| "SerializeJSON gap ind (JNum i) = Some (Number_toString i)"
| "SerializeJSON gap ind (JStr s) = Some (QuoteJSONString s)"
| "SerializeJSON gap ind (JArr xs) =
     Some (wrap gap ind 0x5B 0x5D
       (map (\<lambda>x. case SerializeJSON gap (ind @ gap) x of
                   None \<Rightarrow> js ''null''
                 | Some t \<Rightarrow> t) xs))"
| "SerializeJSON gap ind (JObj ps) =
     Some (wrap gap ind 0x7B 0x7D
       (concat (map (\<lambda>(k, v). case SerializeJSON gap (ind @ gap) v of
                        None \<Rightarrow> []
                      | Some t \<Rightarrow>
                          [QuoteJSONString k @ [0x3A] @ (if gap = [] then [] else [0x20]) @ t])
                    ps)))"

text \<open>\<open>JSON.stringify(value, null, n)\<close>: the gap is \<open>n\<close> spaces (at most ten).\<close>

definition JSON_stringify :: "jsval \<Rightarrow> nat \<Rightarrow> jsstring option" where
  "JSON_stringify v n = SerializeJSON (replicate (min n 10) 0x20) [] v"

subsection \<open>JSON.parse\<close>

definition is_ws :: "16 word \<Rightarrow> bool" where
  "is_ws c = (c = 0x20 \<or> c = 0x09 \<or> c = 0x0A \<or> c = 0x0D)"

definition skip_ws :: "jsstring \<Rightarrow> jsstring" where
  "skip_ws s = dropWhile is_ws s"

definition is_digit :: "16 word \<Rightarrow> bool" where
  "is_digit c = (0x30 \<le> c \<and> c \<le> 0x39)"

definition digits_value :: "jsstring \<Rightarrow> int" where
  "digits_value ds = foldl (\<lambda>a c. 10 * a + (uint c - 48)) 0 ds"

definition hex_value :: "16 word \<Rightarrow> nat option" where
  "hex_value c =
     (let u = unat c in
      if 48 \<le> u \<and> u \<le> 57 then Some (u - 48)
      else if 97 \<le> u \<and> u \<le> 102 then Some (u - 87)
      else if 65 \<le> u \<and> u \<le> 70 then Some (u - 55)
      else None)"

definition hex4 :: "16 word \<Rightarrow> 16 word \<Rightarrow> 16 word \<Rightarrow> 16 word \<Rightarrow> 16 word option" where
  "hex4 a b c d =
     (case (hex_value a, hex_value b, hex_value c, hex_value d) of
        (Some x, Some y, Some z, Some w) \<Rightarrow> Some (of_nat (((x * 16 + y) * 16 + z) * 16 + w))
      | _ \<Rightarrow> None)"

definition unescape :: "16 word \<Rightarrow> 16 word option" where
  "unescape e =
     (if e = 0x22 then Some 0x22
      else if e = 0x5C then Some 0x5C
      else if e = 0x2F then Some 0x2F
      else if e = 0x62 then Some 0x08
      else if e = 0x66 then Some 0x0C
      else if e = 0x6E then Some 0x0A
      else if e = 0x72 then Some 0x0D
      else if e = 0x74 then Some 0x09
      else None)"

definition prepend :: "16 word \<Rightarrow> (jsstring \<times> jsstring) option \<Rightarrow> (jsstring \<times> jsstring) option" where
  "prepend c r = (case r of None \<Rightarrow> None | Some (s, rest) \<Rightarrow> Some (c # s, rest))"

text \<open>The characters of a string literal after its opening quote, and what follows it.\<close>

fun parse_chars :: "jsstring \<Rightarrow> (jsstring \<times> jsstring) option" where
  "parse_chars [] = None"
| "parse_chars (c # cs) =
     (if c = 0x22 then Some ([], cs)
      else if c = 0x5C then
        (case cs of
           [] \<Rightarrow> None
         | e # r \<Rightarrow>
             if e = 0x75 then
               (case r of
                  h1 # h2 # h3 # h4 # r' \<Rightarrow>
                    (case hex4 h1 h2 h3 h4 of
                       None \<Rightarrow> None
                     | Some w \<Rightarrow> prepend w (parse_chars r'))
                | _ \<Rightarrow> None)
             else
               (case unescape e of
                  None \<Rightarrow> None
                | Some w \<Rightarrow> prepend w (parse_chars r)))
      else if c < 0x20 then None
      else prepend c (parse_chars cs))"

text \<open>
  An integer literal. A literal with a fraction or an exponent denotes a number outside
  the model and is not read.
\<close>

definition parse_number :: "jsstring \<Rightarrow> (jsval \<times> jsstring) option" where
  "parse_number s =
     (let neg = (case s of [] \<Rightarrow> False | c # _ \<Rightarrow> c = 0x2D);
          r = (if neg then tl s else s);
          ds = takeWhile is_digit r;
          rest = dropWhile is_digit r
      in case ds of
           [] \<Rightarrow> None
         | d # ds' \<Rightarrow>
             if d = 0x30 \<and> ds' \<noteq> [] then None
             else if (case rest of [] \<Rightarrow> False | c # _ \<Rightarrow> c = 0x2E \<or> c = 0x65 \<or> c = 0x45)
               then None
             else Some (JNum (if neg then - digits_value ds else digits_value ds),
                        rest))"

text \<open>
  Property names that are array indices are enumerated first, in ascending order; the
  others follow in the order of their creation. A repeated name keeps its place and takes
  the later value.
\<close>

definition is_array_index :: "jsstring \<Rightarrow> bool" where
  "is_array_index k =
     (case k of
        [] \<Rightarrow> False
      | c # cs \<Rightarrow> list_all is_digit k \<and> (if c = 0x30 then cs = [] else True)
                 \<and> digits_value k < 4294967295)"

definition index_before :: "jsstring \<Rightarrow> jsstring \<Rightarrow> bool" where
  "index_before k k' =
     (is_array_index k \<and> (if is_array_index k' then digits_value k < digits_value k' else True))"

fun obj_put :: "(jsstring \<times> jsval) list \<Rightarrow> jsstring \<Rightarrow> jsval \<Rightarrow> (jsstring \<times> jsval) list" where
  "obj_put [] k v = [(k, v)]"
| "obj_put ((k', v') # ps) k v =
     (if k' = k then (k', v) # ps
      else if index_before k k' then (k, v) # (k', v') # ps
      else (k', v') # obj_put ps k v)"

definition object_from :: "(jsstring \<times> jsval) list \<Rightarrow> (jsstring \<times> jsval) list" where
  "object_from ms = foldl (\<lambda>ps (k, v). obj_put ps k v) [] ms"

text \<open>
  The recursive descent is bounded by a fuel argument that decreases at every call;
  \<open>JSON_parse\<close> starts it at the length of the text.
\<close>

fun parse_value :: "nat \<Rightarrow> jsstring \<Rightarrow> (jsval \<times> jsstring) option"
  and parse_elements :: "nat \<Rightarrow> jsstring \<Rightarrow> (jsval list \<times> jsstring) option"
  and parse_members :: "nat \<Rightarrow> jsstring \<Rightarrow> ((jsstring \<times> jsval) list \<times> jsstring) option"
where
  "parse_value 0 s = None"
| "parse_value (Suc n) s =
     (case skip_ws s of
        [] \<Rightarrow> None
      | c # cs \<Rightarrow>
          if c = 0x22 then
            (case parse_chars cs of None \<Rightarrow> None | Some (t, r) \<Rightarrow> Some (JStr t, r))
          else if c = 0x5B then
            (case skip_ws cs of
               [] \<Rightarrow> None
             | d # ds \<Rightarrow>
                 if d = 0x5D then Some (JArr [], ds)
                 else (case parse_elements n cs of
                         None \<Rightarrow> None
                       | Some (vs, r) \<Rightarrow> Some (JArr vs, r)))
          else if c = 0x7B then
            (case skip_ws cs of
               [] \<Rightarrow> None
             | d # ds \<Rightarrow>
                 if d = 0x7D then Some (JObj [], ds)
                 else (case parse_members n cs of
                         None \<Rightarrow> None
                       | Some (ms, r) \<Rightarrow> Some (JObj (object_from ms), r)))
          else if take 4 (c # cs) = js ''true'' then Some (JBool True, drop 3 cs)
          else if take 5 (c # cs) = js ''false'' then Some (JBool False, drop 4 cs)
          else if take 4 (c # cs) = js ''null'' then Some (JNull, drop 3 cs)
          else parse_number (c # cs))"
| "parse_elements 0 s = None"
| "parse_elements (Suc n) s =
     (case parse_value n s of
        None \<Rightarrow> None
      | Some (v, r) \<Rightarrow>
          (case skip_ws r of
             [] \<Rightarrow> None
           | c # cs \<Rightarrow>
               if c = 0x2C then
                 (case parse_elements n cs of
                    None \<Rightarrow> None
                  | Some (vs, r') \<Rightarrow> Some (v # vs, r'))
               else if c = 0x5D then Some ([v], cs)
               else None))"
| "parse_members 0 s = None"
| "parse_members (Suc n) s =
     (case skip_ws s of
        [] \<Rightarrow> None
      | q # cs \<Rightarrow>
          if q \<noteq> 0x22 then None
          else
            (case parse_chars cs of
               None \<Rightarrow> None
             | Some (k, r) \<Rightarrow>
                 (case skip_ws r of
                    [] \<Rightarrow> None
                  | c # r1 \<Rightarrow>
                      if c \<noteq> 0x3A then None
                      else
                        (case parse_value n r1 of
                           None \<Rightarrow> None
                         | Some (v, r2) \<Rightarrow>
                             (case skip_ws r2 of
                                [] \<Rightarrow> None
                              | d # r3 \<Rightarrow>
                                  if d = 0x2C then
                                    (case parse_members n r3 of
                                       None \<Rightarrow> None
                                     | Some (ms, r') \<Rightarrow> Some ((k, v) # ms, r'))
                                  else if d = 0x7D then Some ([(k, v)], r3)
                                  else None)))))"

definition JSON_parse :: "jsstring \<Rightarrow> jsval option" where
  "JSON_parse s =
     (case parse_value (length s) s of
        None \<Rightarrow> None
      | Some (v, r) \<Rightarrow> if skip_ws r = [] then Some v else None)"

text \<open>
  The values that \<open>JSON.parse\<close> returns: no \<open>undefined\<close>, integers that a double
  holds exactly, and objects whose properties are in enumeration order.
\<close>

fun json_value :: "jsval \<Rightarrow> bool" where
  "json_value JUndefined = False"
| "json_value JNull = True"
| "json_value (JBool b) = True"
| "json_value (JNum i) = (\<bar>i\<bar> \<le> 9007199254740991)"
| "json_value (JStr s) = True"
| "json_value (JArr xs) = list_all json_value xs"
| "json_value (JObj ps) = (object_from ps = ps \<and> list_all (\<lambda>p. json_value (snd p)) ps)"

subsection \<open>escapeHtml\<close>

text \<open>
  Assigning to \<open>textContent\<close> converts \<open>null\<close> and \<open>undefined\<close> to the empty
  string and everything else to a string.
\<close>

definition textContent_arg :: "jsval \<Rightarrow> exn + jsstring" where
  "textContent_arg v = (if v = JUndefined \<or> v = JNull then Inr [] else ToString v)"

text \<open>
  Reading \<open>innerHTML\<close> of a \<open>div\<close> that holds one text node serialises the text:
  the ampersand, the no-break space and the two angle brackets become character
  references.
\<close>

definition escape_unit :: "16 word \<Rightarrow> jsstring" where
  "escape_unit c =
     (if c = 0x26 then js ''&amp;''
      else if c = 0xA0 then js ''&nbsp;''
      else if c = 0x3C then js ''&lt;''
      else if c = 0x3E then js ''&gt;''
      else [c])"

definition serialize_text :: "jsstring \<Rightarrow> jsstring" where
  "serialize_text t = concat (map escape_unit t)"

text \<open>\<open>s.replace(/\n/g, '<br>')\<close>\<close>

definition replace_newlines :: "jsstring \<Rightarrow> jsstring" where
  "replace_newlines s = concat (map (\<lambda>c. if c = 0x0A then js ''<br>'' else [c]) s)"

definition escapeHtml :: "jsval \<Rightarrow> exn + jsstring" where
  "escapeHtml text =
     (case textContent_arg text of
        Inl e \<Rightarrow> Inl e
      | Inr t \<Rightarrow> Inr (replace_newlines (serialize_text t)))"

text \<open>
  What a piece of markup displays, when it is made of plain characters, the four
  character references above and \<open><br>\<close> only; \<open><br>\<close> is read as a line break.
  Any other use of an angle bracket or an ampersand gives \<open>None\<close>.
\<close>

fun displayed_text :: "jsstring \<Rightarrow> jsstring option" where
  "displayed_text [] = Some []"
| "displayed_text (c # cs) =
     (if c = 0x3C then
        (if take 3 cs = js ''br>'' then map_option ((#) 0x0A) (displayed_text (drop 3 cs))
         else None)
      else if c = 0x3E then None
      else if c = 0x26 then
        (if take 4 cs = js ''amp;'' then map_option ((#) 0x26) (displayed_text (drop 4 cs))
         else if take 5 cs = js ''nbsp;'' then map_option ((#) 0xA0) (displayed_text (drop 5 cs))
         else if take 3 cs = js ''lt;'' then map_option ((#) 0x3C) (displayed_text (drop 3 cs))
         else if take 3 cs = js ''gt;'' then map_option ((#) 0x3E) (displayed_text (drop 3 cs))
         else None)
      else map_option ((#) c) (displayed_text cs))"

subsection \<open>The page\<close>

record File =
  file_name :: jsstring
  file_type :: jsstring
  file_bytes :: "8 word list"

text \<open>An element made by \<open>createFlashcardElement\<close>: its class and the markup assigned to it.\<close>

record element =
  className :: jsstring
  innerHTML :: jsstring

record request =
  url :: jsstring
  http_method :: jsstring
  headers :: "(jsstring \<times> jsstring) list"
  body :: "jsstring option"

text \<open>A file offered for download: the link's \<open>download\<close> name and the Blob's type and text.\<close>

record download =
  download_name :: jsstring
  blob_type :: jsstring
  blob_text :: jsstring

text \<open>
  \<open>x_hidden\<close> says that the class list of element \<open>x\<close> contains \<open>hidden\<close>.
  \<open>requests\<close> and \<open>downloads\<close> log, in order, the calls of \<open>fetch\<close> and the
  clicks on a download link.
\<close>

record page =
  sessionStorage :: "jsstring \<rightharpoonup> jsstring"
  passwordOverlay_hidden :: bool
  passwordError_hidden :: bool
  passwordError_textContent :: jsstring
  passwordInput_value :: jsstring
  passwordInput_focused :: bool
  fileInput_files :: "File list"
  generateBtn_disabled :: bool
  generateBtn_textContent :: jsstring
  loading_hidden :: bool
  results_hidden :: bool
  error_hidden :: bool
  error_textContent :: jsstring
  resultsCount_textContent :: jsstring
  flashcardsContainer_children :: "element list"
  currentFlashcards :: jsval
  requests :: "request list"
  downloads :: "download list"

text \<open>
  What the environment does during one run of a handler. \<open>readAsDataURL f\<close> is the
  reader's result for \<open>f\<close> (\<open>Inr\<close>), or, when the reader fires its error event,
  the message of the reader's \<open>error\<close> (\<open>Inl\<close>).
  \<open>fetch_json r\<close> is the value of \<open>response.json()\<close> for the response to \<open>r\<close>, or
  the exception with which \<open>fetch\<close> or \<open>json()\<close> rejects. \<open>TypeError_message\<close> is the
  engine's text for a TypeError raised in the run.
\<close>

record env =
  readAsDataURL :: "File \<Rightarrow> jsstring + jsstring"
  fetch_json :: "request \<Rightarrow> exn + jsval"
  TypeError_message :: jsstring

definition message :: "env \<Rightarrow> exn \<Rightarrow> jsval" where
  "message e err =
     (case err of
        TypeError \<Rightarrow> JStr (TypeError_message e)
      | Rejected None \<Rightarrow> JUndefined
      | Rejected (Some m) \<Rightarrow> JStr m)"

definition json_headers :: "(jsstring \<times> jsstring) list" where
  "json_headers = [(js ''Content-Type'', js ''application/json'')]"

definition post_json :: "jsstring \<Rightarrow> jsval \<Rightarrow> request" where
  "post_json u v =
     \<lparr>url = u, http_method = js ''POST'', headers = json_headers, body = JSON_stringify v 0\<rparr>"

subsection \<open>Access gate\<close>

text \<open>The top of the \<open>DOMContentLoaded\<close> listener.\<close>

definition DOMContentLoaded :: "page \<Rightarrow> page" where
  "DOMContentLoaded s =
     (if sessionStorage s (js ''authenticated'') = Some (js ''true'')
      then s\<lparr>passwordOverlay_hidden := True\<rparr>
      else s)"

text \<open>The request that \<open>checkPassword\<close> sends.\<close>

definition verify_request :: "jsstring \<Rightarrow> request" where
  "verify_request enteredPassword =
     post_json (js ''/api/verify_password'') (JObj [(js ''password'', JStr enteredPassword)])"

definition checkPassword :: "env \<Rightarrow> page \<Rightarrow> page" where
  "checkPassword e s =
     (let enteredPassword = passwordInput_value s;
          req = verify_request enteredPassword;
          s1 = s\<lparr>requests := requests s @ [req]\<rparr>;
          accepted = s1\<lparr>sessionStorage := (sessionStorage s1)(js ''authenticated'' \<mapsto> js ''true''),
                        passwordOverlay_hidden := True,
                        passwordError_hidden := True,
                        passwordInput_value := []\<rparr>;
          refused = s1\<lparr>passwordError_hidden := False,
                       passwordInput_value := [],
                       passwordInput_focused := True\<rparr>;
          caught = s1\<lparr>passwordError_textContent := cross_mark @ js '' Error verifying password'',
                      passwordError_hidden := False,
                      passwordInput_value := []\<rparr>
      in case fetch_json e req of
           Inl err \<Rightarrow> caught
         | Inr data \<Rightarrow>
             (case get_prop data (js ''success'') of
                Inl err \<Rightarrow> caught
              | Inr success \<Rightarrow>
                  if truthy success then
                    (case get_prop data (js ''authenticated'') of
                       Inl err \<Rightarrow> caught
                     | Inr authenticated \<Rightarrow> if truthy authenticated then accepted else refused)
                  else refused))"

subsection \<open>File intake\<close>

text \<open>
  The \<open>change\<close> listener of the file input; \<open>fileInput_files\<close> already holds the new
  selection when it runs.
\<close>

definition fileInput_change :: "page \<Rightarrow> page" where
  "fileInput_change s =
     (case fileInput_files s of
        file # _ \<Rightarrow>
          s\<lparr>generateBtn_disabled := False,
            generateBtn_textContent := brain @ js '' Generate from '' @ file_name file\<rparr>
      | [] \<Rightarrow>
          s\<lparr>generateBtn_disabled := True,
            generateBtn_textContent := brain @ js '' Generate Flashcards''\<rparr>)"

text \<open>
  \<open>onerror\<close> rejects the promise with the error event it is given. The event has no
  \<open>message\<close> property; the reader's \<open>error\<close>, which has one, is not passed on.
\<close>

definition fileToBase64 :: "env \<Rightarrow> File \<Rightarrow> exn + jsstring" where
  "fileToBase64 e file =
     (case readAsDataURL e file of
        Inl reader_error_message \<Rightarrow> Inl (Rejected None)
      | Inr result \<Rightarrow> Inr result)"

subsection \<open>Result renderer\<close>

text \<open>
  The functions below can throw after they have changed the page: they return the
  exception, if any, and the page as it then is.
\<close>

definition showLoading :: "page \<Rightarrow> page" where
  "showLoading s = s\<lparr>loading_hidden := False, results_hidden := True, error_hidden := True\<rparr>"

definition showError :: "jsval \<Rightarrow> page \<Rightarrow> exn option \<times> page" where
  "showError msg s =
     (let s1 = s\<lparr>loading_hidden := True, results_hidden := True, error_hidden := False\<rparr>
      in case string_plus (cross_mark @ js '' '') msg of
           Inl err \<Rightarrow> (Some err, s1)
         | Inr t \<Rightarrow> (None, s1\<lparr>error_textContent := t\<rparr>))"

definition flashcard_markup :: "jsstring \<Rightarrow> jsstring \<Rightarrow> jsstring \<Rightarrow> jsstring" where
  \<open>flashcard_markup number question answer =
     js ''\<newline>            <div class="flashcard-inner" onclick="this.classList.toggle('flip')">\<newline>''
     @ js ''                <div class="flashcard-front">\<newline>''
     @ js ''                    <div class="flashcard-number">Q'' @ number @ js ''</div>\<newline>''
     @ js ''                    <div>'' @ question @ js ''</div>\<newline>''
     @ js ''                </div>\<newline>''
     @ js ''                <div class="flashcard-back">\<newline>''
     @ js ''                    <div class="flashcard-number">A'' @ number @ js ''</div>\<newline>''
     @ js ''                    <div>'' @ answer @ js ''</div>\<newline>''
     @ js ''                </div>\<newline>''
     @ js ''            </div>\<newline>''
     @ js ''        ''\<close>

definition createFlashcardElement :: "jsval \<Rightarrow> nat \<Rightarrow> exn + element" where
  "createFlashcardElement card' number =
     (case get_prop card' (js ''question'') of
        Inl err \<Rightarrow> Inl err
      | Inr q \<Rightarrow>
          (case escapeHtml q of
             Inl err \<Rightarrow> Inl err
           | Inr question \<Rightarrow>
               (case get_prop card' (js ''answer'') of
                  Inl err \<Rightarrow> Inl err
                | Inr a \<Rightarrow>
                    (case escapeHtml a of
                       Inl err \<Rightarrow> Inl err
                     | Inr answer \<Rightarrow>
                         Inr \<lparr>className = js ''flashcard'',
                              innerHTML = flashcard_markup (decimal number) question answer\<rparr>))))"

text \<open>The body of \<open>forEach\<close>, from position \<open>index\<close> on.\<close>

fun forEach_card :: "jsval list \<Rightarrow> nat \<Rightarrow> page \<Rightarrow> exn option \<times> page" where
  "forEach_card [] index s = (None, s)"
| "forEach_card (card' # cards) index s =
     (case createFlashcardElement card' (index + 1) of
        Inl err \<Rightarrow> (Some err, s)
      | Inr flashcardEl \<Rightarrow>
          forEach_card cards (index + 1)
            (s\<lparr>flashcardsContainer_children := flashcardsContainer_children s @ [flashcardEl]\<rparr>))"

text \<open>Only an array has a \<open>forEach\<close> that can be called.\<close>

definition showResults :: "jsval \<Rightarrow> page \<Rightarrow> exn option \<times> page" where
  "showResults flashcards s =
     (let s1 = s\<lparr>loading_hidden := True, results_hidden := False, error_hidden := True\<rparr>
      in case get_prop flashcards (js ''length'') of
           Inl err \<Rightarrow> (Some err, s1)
         | Inr len \<Rightarrow>
             (case ToString len of
                Inl err \<Rightarrow> (Some err, s1)
              | Inr n \<Rightarrow>
                  (let s2 = s1\<lparr>resultsCount_textContent :=
                                  check_mark @ js '' Generated '' @ n @ js '' flashcards!''\<rparr>;
                       s3 = s2\<lparr>flashcardsContainer_children := []\<rparr>
                   in case flashcards of
                        JArr cards \<Rightarrow> forEach_card cards 0 s3
                      | _ \<Rightarrow> (Some TypeError, s3))))"

subsection \<open>Generation request\<close>

text \<open>The request that the click listener sends for a file and its data URL.\<close>

definition generate_request :: "File \<Rightarrow> jsstring \<Rightarrow> request" where
  "generate_request file base64File =
     post_json (js ''/api/generate_flashcards'')
       (JObj [(js ''file_content'', element_at (String_split 0x2C base64File) 1),
              (js ''file_type'', JStr (file_type file))])"

text \<open>The \<open>try\<close> block of the click listener, run on the page after \<open>showLoading\<close>.\<close>

definition generate_try :: "env \<Rightarrow> File \<Rightarrow> page \<Rightarrow> exn option \<times> page" where
  "generate_try e file s =
     (case fileToBase64 e file of
        Inl err \<Rightarrow> (Some err, s)
      | Inr base64File \<Rightarrow>
          (let req = generate_request file base64File;
               s1 = s\<lparr>requests := requests s @ [req]\<rparr>
           in case fetch_json e req of
                Inl err \<Rightarrow> (Some err, s1)
              | Inr data \<Rightarrow>
                  (case get_prop data (js ''success'') of
                     Inl err \<Rightarrow> (Some err, s1)
                   | Inr success \<Rightarrow>
                       if truthy success then
                         (case get_prop data (js ''flashcards'') of
                            Inl err \<Rightarrow> (Some err, s1)
                          | Inr flashcards \<Rightarrow>
                              showResults flashcards (s1\<lparr>currentFlashcards := flashcards\<rparr>))
                       else
                         (case get_prop data (js ''error'') of
                            Inl err \<Rightarrow> (Some err, s1)
                          | Inr error \<Rightarrow>
                              showError (if truthy error then error
                                         else JStr (js ''Failed to generate flashcards'')) s1))))"

definition generateBtn_click :: "env \<Rightarrow> page \<Rightarrow> page" where
  "generateBtn_click e s =
     (case fileInput_files s of
        [] \<Rightarrow> s
      | file # _ \<Rightarrow>
          (case generate_try e file (showLoading s) of
             (None, s') \<Rightarrow> s'
           | (Some err, s') \<Rightarrow>
               (case string_plus (js ''Failed to generate flashcards: '') (message e err) of
                  Inl err' \<Rightarrow> s'
                | Inr msg \<Rightarrow> snd (showError (JStr msg) s'))))"

subsection \<open>Export\<close>

definition downloadBtn_click :: "page \<Rightarrow> exn option \<times> page" where
  "downloadBtn_click s =
     (case get_prop (currentFlashcards s) (js ''length'') of
        Inl err \<Rightarrow> (Some err, s)
      | Inr len \<Rightarrow>
          if len = JNum 0 then (None, s)
          else
            (let dataStr = JSON_stringify (currentFlashcards s) 2;
                 dataBlob = (case dataStr of None \<Rightarrow> js ''undefined'' | Some t \<Rightarrow> t)
             in (None, s\<lparr>downloads := downloads s @
                            [\<lparr>download_name = js ''flashcards.json'',
                              blob_type = js ''application/json'',
                              blob_text = dataBlob\<rparr>]\<rparr>)))"

subsection \<open>Runs of the page\<close>

text \<open>
  The events the script listens to, each with what the environment answers while its
  handler runs: a click on the password button (or Enter in the password field), a new
  selection in the file input, a click on the generate button, a click on the download
  button. A run handles a sequence of events, one after the other.
\<close>

datatype event = Submit env | Choose "File list" | Generate env | Download



subsection \<open>Sample inputs\<close>

text \<open>A file, a page and an environment on which the handlers are run below.\<close>

definition sample_file :: File where
  "sample_file =
     \<lparr>file_name = js ''notes.pdf'', file_type = js ''application/pdf'',
      file_bytes = [0x41, 0x42, 0x43]\<rparr>"

definition sample_page :: "File list \<Rightarrow> jsval \<Rightarrow> page" where
  "sample_page files collection =
     \<lparr>sessionStorage = Map.empty,
      passwordOverlay_hidden = False,
      passwordError_hidden = True,
      passwordError_textContent = js ''Incorrect password'',
      passwordInput_value = js ''secret'',
      passwordInput_focused = False,
      fileInput_files = files,
      generateBtn_disabled = True,
      generateBtn_textContent = js ''Generate Flashcards'',
      loading_hidden = True,
      results_hidden = True,
      error_hidden = True,
      error_textContent = [],
      resultsCount_textContent = [],
      flashcardsContainer_children = [\<lparr>className = js ''flashcard'', innerHTML = js ''old''\<rparr>],
      currentFlashcards = collection,
      requests = [],
      downloads = []\<rparr>"

definition sample_env :: "jsstring + jsstring \<Rightarrow> exn + jsval \<Rightarrow> env" where
  "sample_env result reply =
     \<lparr>readAsDataURL = (\<lambda>file. result),
      fetch_json = (\<lambda>req. reply),
      TypeError_message = js ''not an object''\<rparr>"

definition sample_card :: jsval where
  "sample_card = JObj [(js ''question'', JStr (js ''2+2?'')), (js ''answer'', JStr (js ''4''))]"



text \<open>A file whose declared media type has a quoted parameter with a comma in it.\<close>

definition quoted_type_file :: File where
  \<open>quoted_type_file =
     \<lparr>file_name = js ''notes.txt'', file_type = js ''text/plain;title="a,b"'',
      file_bytes = [0x41, 0x42, 0x43]\<rparr>\<close>

text \<open>
  The data URL of that file: the scheme, the declared media type, the marker
  \<open>;base64,\<close> and the three bytes in base64.
\<close>

definition quoted_type_url :: jsstring where
  \<open>quoted_type_url = js ''data:text/plain;title="a,b";base64,QUJD''\<close>

subsection \<open>Notions used in the statements\<close>

text \<open>The base64 text of a sequence of bytes (RFC 4648): the payload of a data URL.\<close>

definition base64_code :: "nat \<Rightarrow> nat" where
  "base64_code i =
     (if i < 26 then 65 + i
      else if i < 52 then 97 + (i - 26)
      else if i < 62 then 48 + (i - 52)
      else if i = 62 then 43
      else 47)"

definition base64_unit :: "nat \<Rightarrow> 16 word" where
  "base64_unit i = of_nat (base64_code i)"

fun base64 :: "8 word list \<Rightarrow> jsstring" where
  "base64 [] = []"
| "base64 [a] =
     [base64_unit (unat a div 4), base64_unit (unat a mod 4 * 16), 0x3D, 0x3D]"
| "base64 [a, b] =
     [base64_unit (unat a div 4), base64_unit (unat a mod 4 * 16 + unat b div 16),
      base64_unit (unat b mod 16 * 4), 0x3D]"
| "base64 (a # b # c # bytes) =
     [base64_unit (unat a div 4), base64_unit (unat a mod 4 * 16 + unat b div 16),
      base64_unit (unat b mod 16 * 4 + unat c div 64), base64_unit (unat c mod 64)]
     @ base64 bytes"

text \<open>The text of a data URL after its first comma.\<close>

definition text_after_first_comma :: "jsstring \<Rightarrow> jsstring" where
  "text_after_first_comma u = drop 1 (dropWhile (\<lambda>c. c \<noteq> 0x2C) u)"

text \<open>
  What follows a value inside a JSON text written by \<open>SerializeJSON\<close>: nothing, a comma,
  a closing bracket or brace, or the newline before one.
\<close>

definition terminated :: "jsstring \<Rightarrow> bool" where
  "terminated rest =
     (case rest of [] \<Rightarrow> True | c # _ \<Rightarrow> c = 0x2C \<or> c = 0x5D \<or> c = 0x7D \<or> c = 0x0A)"

text \<open>
  \<open>accepted e s\<close> is the \<open>flashcards\<close> of the response when a click on the generate
  button, on page \<open>s\<close> with the answers \<open>e\<close>, reaches the success branch, and
  \<open>completed e s\<close> says that the click's \<open>try\<close> block ends without an exception: for
  an accepted response, that its rendering completes. \<open>last_accepted\<close> follows a run
  and keeps the \<open>flashcards\<close> of the last accepted response, with whether its rendering
  completed.
\<close>

definition accepted :: "env \<Rightarrow> page \<Rightarrow> jsval option" where
  "accepted e s =
     (case fileInput_files s of
        [] \<Rightarrow> None
      | file # _ \<Rightarrow>
          (case fileToBase64 e file of
             Inl err \<Rightarrow> None
           | Inr base64File \<Rightarrow>
               (case fetch_json e (generate_request file base64File) of
                  Inl err \<Rightarrow> None
                | Inr data \<Rightarrow>
                    (case get_prop data (js ''success'') of
                       Inl err \<Rightarrow> None
                     | Inr success \<Rightarrow>
                         if truthy success then
                           (case get_prop data (js ''flashcards'') of
                              Inl err \<Rightarrow> None
                            | Inr flashcards \<Rightarrow> Some flashcards)
                         else None))))"




section \<open>Properties\<close>

subsection \<open>Escaping\<close>

lemma escape_step:
  "replace_newlines (serialize_text (c # t)) =
     replace_newlines (escape_unit c) @ replace_newlines (serialize_text t)"
  by (simp add: replace_newlines_def serialize_text_def)

lemma displayed_text_unit:
  "displayed_text (replace_newlines (escape_unit c) @ rest) =
     map_option ((#) c) (displayed_text rest)"
  by (simp add: replace_newlines_def escape_unit_def js_def)

lemma displayed_text_escape:
  "displayed_text (replace_newlines (serialize_text t)) = Some t"
proof (induction t)
  case Nil
  show ?case by (simp add: replace_newlines_def serialize_text_def)
next
  case (Cons c t)
  show ?case
    unfolding escape_step displayed_text_unit Cons.IH by simp
qed

lemma escapeHtml_JStr: "escapeHtml (JStr t) = Inr (replace_newlines (serialize_text t))"
  by (simp add: escapeHtml_def textContent_arg_def)

lemma escape_per_unit:
  "replace_newlines (serialize_text t) =
     concat (map (\<lambda>c. if c = 0x0A then js ''<br>'' else escape_unit c) t)"
  by (induction t) (simp_all add: replace_newlines_def serialize_text_def escape_unit_def js_def)

text \<open>
  C3. For every string, \<open>escapeHtml\<close> returns markup in which each newline has become
  \<open><br>\<close> and every other code unit its escaped form; that markup holds no tag but
  \<open><br>\<close> and no raw ampersand or angle bracket, and it displays the string itself.
\<close>

theorem escapeHtml_literal:
  "\<exists>out. escapeHtml (JStr t) = Inr out
      \<and> out = concat (map (\<lambda>c. if c = 0x0A then js ''<br>'' else escape_unit c) t)
      \<and> displayed_text out = Some t"
  using escape_per_unit [of t] displayed_text_escape [of t] by (simp add: escapeHtml_JStr)

theorem escapeHtml_literal_witness:
  "escapeHtml (JStr (js ''<script>'' @ [0x0A] @ js ''a&b'')) =
     Inr (js ''&lt;script&gt;<br>a&amp;b'')
   \<and> displayed_text (js ''&lt;script&gt;<br>a&amp;b'') = Some (js ''<script>'' @ [0x0A] @ js ''a&b'')"
  using escapeHtml_literal [of "js ''<script>'' @ [0x0A] @ js ''a&b''"]
  by (simp add: escape_unit_def js_def)

subsection \<open>Access gate\<close>

text \<open>
  C4. When the verification response is an object: if its \<open>success\<close> and
  \<open>authenticated\<close> are both truthy, the session flag is set to \<open>true\<close>, the
  overlay and the error indicator are hidden and the input is cleared; otherwise the
  overlay and the session storage are as before, the error indicator is shown (with the
  text it had), the input is cleared and has the focus.
\<close>

theorem checkPassword_response:
  assumes "fetch_json e (verify_request (passwordInput_value s)) = Inr (JObj ps)"
  shows "(truthy (own_property ps (js ''success''))
            \<and> truthy (own_property ps (js ''authenticated'')) \<longrightarrow>
            sessionStorage (checkPassword e s) (js ''authenticated'') = Some (js ''true'')
          \<and> passwordOverlay_hidden (checkPassword e s)
          \<and> passwordError_hidden (checkPassword e s)
          \<and> passwordInput_value (checkPassword e s) = [])
       \<and> (\<not> (truthy (own_property ps (js ''success''))
               \<and> truthy (own_property ps (js ''authenticated''))) \<longrightarrow>
            passwordOverlay_hidden (checkPassword e s) = passwordOverlay_hidden s
          \<and> sessionStorage (checkPassword e s) = sessionStorage s
          \<and> \<not> passwordError_hidden (checkPassword e s)
          \<and> passwordError_textContent (checkPassword e s) = passwordError_textContent s
          \<and> passwordInput_value (checkPassword e s) = []
          \<and> passwordInput_focused (checkPassword e s))"
  using assms by (simp add: checkPassword_def Let_def)

theorem checkPassword_response_witness:
  "sessionStorage
     (checkPassword
        (sample_env (Inl (js ''The file could not be read'')) (Inr (JObj [(js ''success'', JBool True), (js ''authenticated'', JBool True)])))
        (sample_page [] (JArr []))) (js ''authenticated'') = Some (js ''true'')
   \<and> passwordOverlay_hidden
     (checkPassword
        (sample_env (Inl (js ''The file could not be read'')) (Inr (JObj [(js ''success'', JBool True), (js ''authenticated'', JBool True)])))
        (sample_page [] (JArr [])))
   \<and> \<not> passwordOverlay_hidden
     (checkPassword
        (sample_env (Inl (js ''The file could not be read'')) (Inr (JObj [(js ''success'', JBool True), (js ''authenticated'', JBool False)])))
        (sample_page [] (JArr [])))
   \<and> sessionStorage
     (checkPassword
        (sample_env (Inl (js ''The file could not be read'')) (Inr (JObj [(js ''success'', JBool True), (js ''authenticated'', JBool False)])))
        (sample_page [] (JArr []))) (js ''authenticated'') = None
   \<and> \<not> passwordError_hidden
     (checkPassword
        (sample_env (Inl (js ''The file could not be read'')) (Inr (JObj [(js ''success'', JBool True), (js ''authenticated'', JBool False)])))
        (sample_page [] (JArr [])))
   \<and> passwordInput_focused
     (checkPassword
        (sample_env (Inl (js ''The file could not be read'')) (Inr (JObj [(js ''success'', JBool True), (js ''authenticated'', JBool False)])))
        (sample_page [] (JArr [])))"
  using
    checkPassword_response
      [of "sample_env (Inl (js ''The file could not be read'')) (Inr (JObj [(js ''success'', JBool True), (js ''authenticated'', JBool True)]))"
          "sample_page [] (JArr [])"
          "[(js ''success'', JBool True), (js ''authenticated'', JBool True)]"]
    checkPassword_response
      [of "sample_env (Inl (js ''The file could not be read'')) (Inr (JObj [(js ''success'', JBool True), (js ''authenticated'', JBool False)]))"
          "sample_page [] (JArr [])"
          "[(js ''success'', JBool True), (js ''authenticated'', JBool False)]"]
  by (simp add: sample_env_def sample_page_def own_property_def js_def)



subsection \<open>File intake\<close>

text \<open>
  C7. After a selection event: when the selection holds a file, the generate button is
  enabled and its label ends with the name of the first file; when it holds none, the
  button is disabled and its label is the default prompt.
\<close>

theorem fileInput_change_label:
  "(\<forall>file files. fileInput_files s = file # files \<longrightarrow>
       \<not> generateBtn_disabled (fileInput_change s)
     \<and> generateBtn_textContent (fileInput_change s) = brain @ js '' Generate from '' @ file_name file)
   \<and> (fileInput_files s = [] \<longrightarrow>
       generateBtn_disabled (fileInput_change s)
     \<and> generateBtn_textContent (fileInput_change s) = brain @ js '' Generate Flashcards'')"
  by (simp add: fileInput_change_def)

theorem fileInput_change_label_witness:
  "\<not> generateBtn_disabled (fileInput_change (sample_page [sample_file] (JArr [])))
   \<and> generateBtn_textContent (fileInput_change (sample_page [sample_file] (JArr [])))
       = brain @ js '' Generate from notes.pdf''
   \<and> generateBtn_disabled (fileInput_change (sample_page [] (JArr [])))
   \<and> generateBtn_textContent (fileInput_change (sample_page [] (JArr [])))
       = brain @ js '' Generate Flashcards''"
  using fileInput_change_label [of "sample_page [sample_file] (JArr [])"]
        fileInput_change_label [of "sample_page [] (JArr [])"]
  by (simp add: sample_page_def sample_file_def js_def)

subsection \<open>Generation request\<close>

text \<open>
  C10. A click on the generate button while no file is selected leaves the whole page as
  it was: no request is logged, and the three visibility states and the stored collection
  are unchanged.
\<close>

theorem generateBtn_click_no_file:
  assumes "fileInput_files s = []"
  shows "generateBtn_click e s = s"
  using assms by (simp add: generateBtn_click_def)

theorem generateBtn_click_no_file_witness:
  "fileInput_files (sample_page [] (JArr [sample_card])) = []
   \<and> generateBtn_click (sample_env (Inl (js ''The file could not be read'')) (Inr JNull)) (sample_page [] (JArr [sample_card]))
       = sample_page [] (JArr [sample_card])"
  using generateBtn_click_no_file
          [of "sample_page [] (JArr [sample_card])" "sample_env (Inl (js ''The file could not be read'')) (Inr JNull)"]
  by (simp add: sample_page_def)

lemma showError_JStr:
  "showError (JStr m) s =
     (None, s\<lparr>loading_hidden := True, results_hidden := True, error_hidden := False,
              error_textContent := cross_mark @ js '' '' @ m\<rparr>)"
  by (simp add: showError_def string_plus_def)

lemma showError_frame:
  "currentFlashcards (snd (showError m s)) = currentFlashcards s"
  "downloads (snd (showError m s)) = downloads s"
  "\<not> error_hidden (snd (showError m s))"
  by (simp_all add: showError_def Let_def split: sum.splits)

lemma showLoading_frame:
  "currentFlashcards (showLoading s) = currentFlashcards s"
  "downloads (showLoading s) = downloads s"
  "requests (showLoading s) = requests s"
  by (simp_all add: showLoading_def)

lemma ToString_message: "\<exists>d. ToString (message e err) = Inr d"
  by (cases err) (auto simp: message_def split: option.splits)

lemma ToString_message_cases:
  "ToString (message e (Rejected (Some m))) = Inr m"
  "ToString (message e (Rejected None)) = Inr (js ''undefined'')"
  "ToString (message e TypeError) = Inr (TypeError_message e)"
  by (simp_all add: message_def)

text \<open>What the \<open>catch\<close> block makes of an exception thrown in the \<open>try\<close> block.\<close>

lemma generate_catch:
  assumes "fileInput_files s = file # files"
      and "generate_try e file (showLoading s) = (Some err, s')"
      and "ToString (message e err) = Inr d"
  shows "generateBtn_click e s =
           s'\<lparr>loading_hidden := True, results_hidden := True, error_hidden := False,
              error_textContent :=
                cross_mark @ js '' '' @ js ''Failed to generate flashcards: '' @ d\<rparr>"
  using assms by (simp add: generateBtn_click_def string_plus_def showError_JStr)

lemma generate_no_exception:
  assumes "fileInput_files s = file # files"
      and "generate_try e file (showLoading s) = (None, s')"
  shows "generateBtn_click e s = s'"
  using assms by (simp add: generateBtn_click_def)

lemma error_shown_after_catch:
  assumes "fileInput_files s = file # files"
      and "fst (generate_try e file (showLoading s)) \<noteq> None"
  shows "\<not> error_hidden (generateBtn_click e s)"
proof -
  obtain err s' where t: "generate_try e file (showLoading s) = (Some err, s')"
    using assms(2) by (cases "generate_try e file (showLoading s)") auto
  obtain d where "ToString (message e err) = Inr d"
    using ToString_message by blast
  then show ?thesis
    using generate_catch [OF assms(1) t] by simp
qed

lemma generate_try_fetch_error:
  assumes "readAsDataURL e file = Inr u"
      and "fetch_json e (generate_request file u) = Inl err"
  shows "generate_try e file s =
           (Some err, s\<lparr>requests := requests s @ [generate_request file u]\<rparr>)"
  using assms by (simp add: generate_try_def fileToBase64_def Let_def)

lemma generate_try_negative:
  assumes "readAsDataURL e file = Inr u"
      and "fetch_json e (generate_request file u) = Inr data"
      and "get_prop data (js ''success'') = Inr v"
      and "\<not> truthy v"
      and "get_prop data (js ''error'') = Inr er"
  shows "generate_try e file s =
           showError (if truthy er then er else JStr (js ''Failed to generate flashcards''))
             (s\<lparr>requests := requests s @ [generate_request file u]\<rparr>)"
  using assms by (simp add: generate_try_def fileToBase64_def Let_def)

lemma generate_try_success:
  assumes "readAsDataURL e file = Inr u"
      and "fetch_json e (generate_request file u) = Inr data"
      and "get_prop data (js ''success'') = Inr v"
      and "truthy v"
      and "get_prop data (js ''flashcards'') = Inr fc"
  shows "generate_try e file s =
           showResults fc
             (s\<lparr>requests := requests s @ [generate_request file u], currentFlashcards := fc\<rparr>)"
  using assms by (simp add: generate_try_def fileToBase64_def Let_def)

text \<open>
  C6 (as amended). In a generation attempt on a selected file whose data URL the reader
  returns: when the response is an object whose \<open>success\<close> is falsy, the error element
  is shown, and its text is the cross mark followed by the server's error text when that
  is a non-empty string, and by \<open>Failed to generate flashcards\<close> when the \<open>error\<close>
  field is absent, empty or otherwise falsy. When the request or the reading of its
  response throws, the error element is shown with the cross mark, the prefix
  \<open>Failed to generate flashcards: \<close> and the string form of the exception's message,
  which is the message itself when the exception has one.
\<close>

theorem generate_failure_message:
  assumes "fileInput_files s = file # files"
      and "readAsDataURL e file = Inr u"
  shows "(fetch_json e (generate_request file u) = Inr (JObj ps)
            \<and> \<not> truthy (own_property ps (js ''success'')) \<longrightarrow>
          \<not> error_hidden (generateBtn_click e s)
          \<and> (own_property ps (js ''error'') = JStr m \<and> m \<noteq> [] \<longrightarrow>
               error_textContent (generateBtn_click e s) = cross_mark @ js '' '' @ m)
          \<and> (\<not> truthy (own_property ps (js ''error'')) \<longrightarrow>
               error_textContent (generateBtn_click e s) =
                 cross_mark @ js '' '' @ js ''Failed to generate flashcards''))
       \<and> (fetch_json e (generate_request file u) = Inl err \<longrightarrow>
          (\<exists>d. ToString (message e err) = Inr d
             \<and> (\<forall>t. err = Rejected (Some t) \<longrightarrow> d = t)
             \<and> error_textContent (generateBtn_click e s) =
                 cross_mark @ js '' '' @ js ''Failed to generate flashcards: '' @ d
             \<and> \<not> error_hidden (generateBtn_click e s)))"
proof (intro conjI impI)
  assume a: "fetch_json e (generate_request file u) = Inr (JObj ps)
            \<and> \<not> truthy (own_property ps (js ''success''))"
  define shown where
    "shown = showError (if truthy (own_property ps (js ''error'')) then own_property ps (js ''error'')
                else JStr (js ''Failed to generate flashcards''))
       ((showLoading s)\<lparr>requests := requests (showLoading s) @ [generate_request file u]\<rparr>)"
  have t: "generate_try e file (showLoading s) = shown"
    unfolding shown_def using a assms(2)
    by (intro generate_try_negative
          [where data = "JObj ps" and v = "own_property ps (js ''success'')"]) simp_all
  show "\<not> error_hidden (generateBtn_click e s)"
  proof (cases "fst shown")
    case None
    then have "generateBtn_click e s = snd shown"
      using generate_no_exception [OF assms(1), of e "snd shown"] t by (cases shown) simp
    then show ?thesis
      unfolding shown_def by (simp add: showError_frame)
  next
    case (Some err')
    then show ?thesis
      using error_shown_after_catch [OF assms(1), of e] t by simp
  qed
  {
    assume "own_property ps (js ''error'') = JStr m \<and> m \<noteq> []"
    then show "error_textContent (generateBtn_click e s) = cross_mark @ js '' '' @ m"
      using assms(1) t by (simp add: shown_def generateBtn_click_def showError_JStr)
  }
  {
    assume "\<not> truthy (own_property ps (js ''error''))"
    then show "error_textContent (generateBtn_click e s) =
               cross_mark @ js '' '' @ js ''Failed to generate flashcards''"
      using assms(1) t by (simp add: shown_def generateBtn_click_def showError_JStr)
  }
next
  assume b: "fetch_json e (generate_request file u) = Inl err"
  then obtain s' where t: "generate_try e file (showLoading s) = (Some err, s')"
    using generate_try_fetch_error [OF assms(2)] by blast
  obtain d where d: "ToString (message e err) = Inr d"
    using ToString_message by blast
  have "\<forall>t. err = Rejected (Some t) \<longrightarrow> d = t"
    using d by (auto simp: ToString_message_cases)
  then show "\<exists>d. ToString (message e err) = Inr d
             \<and> (\<forall>t. err = Rejected (Some t) \<longrightarrow> d = t)
             \<and> error_textContent (generateBtn_click e s) =
                 cross_mark @ js '' '' @ js ''Failed to generate flashcards: '' @ d
             \<and> \<not> error_hidden (generateBtn_click e s)"
    using generate_catch [OF assms(1) t d] d by auto
qed

theorem generate_failure_message_witness:
  "error_textContent
     (generateBtn_click
        (sample_env (Inr (js ''data:application/pdf;base64,QUJD''))
           (Inr (JObj [(js ''success'', JBool False), (js ''error'', JStr (js ''Unsupported file''))])))
        (sample_page [sample_file] (JArr [])))
     = cross_mark @ js '' Unsupported file''
   \<and> error_textContent
     (generateBtn_click
        (sample_env (Inr (js ''data:application/pdf;base64,QUJD''))
           (Inr (JObj [(js ''success'', JBool False)])))
        (sample_page [sample_file] (JArr [])))
     = cross_mark @ js '' Failed to generate flashcards''
   \<and> error_textContent
     (generateBtn_click
        (sample_env (Inr (js ''data:application/pdf;base64,QUJD''))
           (Inl (Rejected (Some (js ''Failed to fetch'')))))
        (sample_page [sample_file] (JArr [])))
     = cross_mark @ js '' Failed to generate flashcards: Failed to fetch''"
  using
    generate_failure_message
      [of "sample_page [sample_file] (JArr [])" sample_file "[]"
          "sample_env (Inr (js ''data:application/pdf;base64,QUJD''))
             (Inr (JObj [(js ''success'', JBool False), (js ''error'', JStr (js ''Unsupported file''))]))"
          "js ''data:application/pdf;base64,QUJD''"
          "[(js ''success'', JBool False), (js ''error'', JStr (js ''Unsupported file''))]"
          "js ''Unsupported file''" "Rejected None"]
    generate_failure_message
      [of "sample_page [sample_file] (JArr [])" sample_file "[]"
          "sample_env (Inr (js ''data:application/pdf;base64,QUJD''))
             (Inr (JObj [(js ''success'', JBool False)]))"
          "js ''data:application/pdf;base64,QUJD''"
          "[(js ''success'', JBool False)]"
          "[]" "Rejected None"]
    generate_failure_message
      [of "sample_page [sample_file] (JArr [])" sample_file "[]"
          "sample_env (Inr (js ''data:application/pdf;base64,QUJD''))
             (Inl (Rejected (Some (js ''Failed to fetch''))))"
          "js ''data:application/pdf;base64,QUJD''"
          "[]" "[]" "Rejected (Some (js ''Failed to fetch''))"]
  by (simp add: sample_env_def sample_page_def own_property_def js_def message_def)

text \<open>
  Two attempts that the claim as first stated does not describe. A response whose
  \<open>error\<close> is the empty string: the fallback is shown, not the server's text. A file
  that cannot be read: the reader's error has a message, but the promise is rejected with
  the error event, and the text shown ends with \<open>undefined\<close>.
\<close>

theorem generate_failure_message_empty_and_unreadable:
  "own_property [(js ''success'', JBool False), (js ''error'', JStr [])] (js ''error'') = JStr []
   \<and> error_textContent
     (generateBtn_click
        (sample_env (Inr (js ''data:application/pdf;base64,QUJD''))
           (Inr (JObj [(js ''success'', JBool False), (js ''error'', JStr [])])))
        (sample_page [sample_file] (JArr [])))
     = cross_mark @ js '' Failed to generate flashcards''
   \<and> error_textContent
     (generateBtn_click
        (sample_env (Inr (js ''data:application/pdf;base64,QUJD''))
           (Inr (JObj [(js ''success'', JBool False), (js ''error'', JStr [])])))
        (sample_page [sample_file] (JArr [])))
     \<noteq> cross_mark @ js '' '' @ []
   \<and> readAsDataURL (sample_env (Inl (js ''The file could not be read'')) (Inr JNull)) sample_file
     = Inl (js ''The file could not be read'')
   \<and> error_textContent
     (generateBtn_click
        (sample_env (Inl (js ''The file could not be read'')) (Inr JNull))
        (sample_page [sample_file] (JArr [])))
     = cross_mark @ js '' Failed to generate flashcards: undefined''
   \<and> error_textContent
     (generateBtn_click
        (sample_env (Inl (js ''The file could not be read'')) (Inr JNull))
        (sample_page [sample_file] (JArr [])))
     \<noteq> cross_mark @ js '' Failed to generate flashcards: The file could not be read''"
  by (simp add: generateBtn_click_def generate_try_def fileToBase64_def showLoading_def
        showError_def string_plus_def message_def sample_env_def sample_page_def
        own_property_def cross_mark_def js_def)

lemma downloadBtn_click_depends:
  assumes "currentFlashcards s' = currentFlashcards s"
      and "downloads s' = downloads s"
  shows "fst (downloadBtn_click s') = fst (downloadBtn_click s)"
    and "downloads (snd (downloadBtn_click s')) = downloads (snd (downloadBtn_click s))"
  using assms by (simp_all add: downloadBtn_click_def Let_def split: sum.splits)

lemma generate_try_no_success:
  assumes "(\<exists>reason. readAsDataURL e file = Inl reason)
         \<or> (\<exists>u. readAsDataURL e file = Inr u
              \<and> ((\<exists>err. fetch_json e (generate_request file u) = Inl err)
                 \<or> (\<exists>data. fetch_json e (generate_request file u) = Inr data
                      \<and> (get_prop data (js ''success'') = Inl TypeError
                         \<or> (\<exists>v. get_prop data (js ''success'') = Inr v \<and> \<not> truthy v)))))"
  shows "currentFlashcards (snd (generate_try e file s)) = currentFlashcards s
       \<and> downloads (snd (generate_try e file s)) = downloads s"
  using assms
  by (auto simp add: generate_try_def fileToBase64_def Let_def showError_frame split: sum.splits)

text \<open>
  C9. In a generation attempt on a selected file that does not reach the success branch
  (reading the file fails, the request or the reading of its response throws, the
  response has no readable \<open>success\<close>, or its \<open>success\<close> is falsy), the variable
  \<open>currentFlashcards\<close> keeps its value, and an export made afterwards offers the same
  file as an export made before the attempt.
\<close>

theorem failed_generation_keeps_collection:
  assumes "fileInput_files s = file # files"
      and "(\<exists>reason. readAsDataURL e file = Inl reason)
         \<or> (\<exists>u. readAsDataURL e file = Inr u
              \<and> ((\<exists>err. fetch_json e (generate_request file u) = Inl err)
                 \<or> (\<exists>data. fetch_json e (generate_request file u) = Inr data
                      \<and> (get_prop data (js ''success'') = Inl TypeError
                         \<or> (\<exists>v. get_prop data (js ''success'') = Inr v \<and> \<not> truthy v)))))"
  shows "currentFlashcards (generateBtn_click e s) = currentFlashcards s
       \<and> fst (downloadBtn_click (generateBtn_click e s)) = fst (downloadBtn_click s)
       \<and> downloads (snd (downloadBtn_click (generateBtn_click e s)))
           = downloads (snd (downloadBtn_click s))"
proof -
  have t: "currentFlashcards (snd (generate_try e file (showLoading s))) = currentFlashcards s
       \<and> downloads (snd (generate_try e file (showLoading s))) = downloads s"
    using generate_try_no_success [OF assms(2), of "showLoading s"] by (simp add: showLoading_frame)
  have "currentFlashcards (generateBtn_click e s) = currentFlashcards s
      \<and> downloads (generateBtn_click e s) = downloads s"
    using assms(1) t
    by (cases "generate_try e file (showLoading s)")
       (auto simp add: generateBtn_click_def showError_frame split: option.splits sum.splits)
  then show ?thesis
    using downloadBtn_click_depends [of "generateBtn_click e s" s] by simp
qed

theorem failed_generation_keeps_collection_witness:
  "fileInput_files (sample_page [sample_file] (JArr [sample_card])) = [sample_file]
   \<and> readAsDataURL (sample_env (Inl (js ''The file could not be read'')) (Inr JNull)) sample_file
       = Inl (js ''The file could not be read'')
   \<and> currentFlashcards
       (generateBtn_click (sample_env (Inl (js ''The file could not be read'')) (Inr JNull)) (sample_page [sample_file] (JArr [sample_card])))
       = JArr [sample_card]
   \<and> fetch_json (sample_env (Inr (js ''data:application/pdf;base64,QUJD''))
                   (Inr (JObj [(js ''success'', JBool False)])))
        (generate_request sample_file (js ''data:application/pdf;base64,QUJD''))
       = Inr (JObj [(js ''success'', JBool False)])
   \<and> currentFlashcards
       (generateBtn_click
          (sample_env (Inr (js ''data:application/pdf;base64,QUJD''))
             (Inr (JObj [(js ''success'', JBool False)])))
          (sample_page [sample_file] (JArr [sample_card])))
       = JArr [sample_card]"
  using
    failed_generation_keeps_collection
      [of "sample_page [sample_file] (JArr [sample_card])" sample_file "[]"
          "sample_env (Inl (js ''The file could not be read'')) (Inr JNull)"]
    failed_generation_keeps_collection
      [of "sample_page [sample_file] (JArr [sample_card])" sample_file "[]"
          "sample_env (Inr (js ''data:application/pdf;base64,QUJD''))
             (Inr (JObj [(js ''success'', JBool False)]))"]
  by (simp add: sample_env_def sample_page_def own_property_def js_def)

subsection \<open>Result renderer\<close>

lemma Number_toString_int: "Number_toString (int n) = decimal n"
  by (simp add: Number_toString_def)

lemma createFlashcardElement_pair:
  assumes "get_prop c (js ''question'') = Inr (JStr q)"
      and "get_prop c (js ''answer'') = Inr (JStr a)"
  shows "createFlashcardElement c number =
           Inr \<lparr>className = js ''flashcard'',
                innerHTML = flashcard_markup (decimal number)
                  (replace_newlines (serialize_text q)) (replace_newlines (serialize_text a))\<rparr>"
  using assms by (simp add: createFlashcardElement_def escapeHtml_JStr)

text \<open>The loop appends one element per pair, numbered from the position after \<open>index\<close>.\<close>

lemma forEach_card_pairs:
  assumes "\<forall>i < length cards.
             get_prop (cards ! i) (js ''question'') = Inr (JStr (question (index + i)))
           \<and> get_prop (cards ! i) (js ''answer'') = Inr (JStr (answer (index + i)))"
  shows "forEach_card cards index s =
           (None, s\<lparr>flashcardsContainer_children := flashcardsContainer_children s @
              map (\<lambda>i. \<lparr>className = js ''flashcard'',
                          innerHTML = flashcard_markup (decimal (i + 1))
                            (replace_newlines (serialize_text (question i)))
                            (replace_newlines (serialize_text (answer i)))\<rparr>)
                  [index ..< index + length cards]\<rparr>)"
  using assms
proof (induction cards arbitrary: index s)
  case Nil
  show ?case by simp
next
  case (Cons c cards)
  have c: "get_prop c (js ''question'') = Inr (JStr (question index))"
          "get_prop c (js ''answer'') = Inr (JStr (answer index))"
    using Cons.prems [rule_format, of 0] by simp_all
  have rest: "\<forall>i < length cards.
             get_prop (cards ! i) (js ''question'') = Inr (JStr (question (Suc index + i)))
           \<and> get_prop (cards ! i) (js ''answer'') = Inr (JStr (answer (Suc index + i)))"
    using Cons.prems [rule_format, of "Suc i" for i] by simp
  have split: "[index ..< index + length (c # cards)]
                 = index # [Suc index ..< Suc index + length cards]"
    by (subst upt_conv_Cons) simp_all
  show ?case
    unfolding split
    by (simp add: createFlashcardElement_pair [OF c] Cons.IH [OF rest])
qed

lemma showResults_cards:
  assumes "\<forall>i < length cards.
             get_prop (cards ! i) (js ''question'') = Inr (JStr (question i))
           \<and> get_prop (cards ! i) (js ''answer'') = Inr (JStr (answer i))"
  shows "showResults (JArr cards) s =
           (None, s\<lparr>loading_hidden := True, results_hidden := False, error_hidden := True,
               resultsCount_textContent :=
                 check_mark @ js '' Generated '' @ decimal (length cards) @ js '' flashcards!'',
               flashcardsContainer_children :=
                 map (\<lambda>i. \<lparr>className = js ''flashcard'',
                             innerHTML = flashcard_markup (decimal (i + 1))
                               (replace_newlines (serialize_text (question i)))
                               (replace_newlines (serialize_text (answer i)))\<rparr>)
                     [0 ..< length cards]\<rparr>)"
proof -
  have a: "\<forall>i < length cards.
             get_prop (cards ! i) (js ''question'') = Inr (JStr (question (0 + i)))
           \<and> get_prop (cards ! i) (js ''answer'') = Inr (JStr (answer (0 + i)))"
    using assms by simp
  show ?thesis
    by (simp add: showResults_def Let_def Number_toString_int forEach_card_pairs [OF a])
qed

text \<open>
  C1. Let \<open>cards\<close> be a list of N values whose \<open>question\<close> and \<open>answer\<close> are
  strings. Rendering it on any page succeeds and leaves exactly N flashcard elements, in
  the order of the list, whatever the container held before. The element at position i
  (from 1) has the class \<open>flashcard\<close> and this markup: inside the \<open>flashcard-inner\<close>
  element, a \<open>flashcard-front\<close> element that holds the number label \<open>Q\<close> i and then
  the escaped question of the i-th pair, followed by a \<open>flashcard-back\<close> element that
  holds the number label \<open>A\<close> i and then the escaped answer of that pair; the escaped
  texts display the question and the answer themselves. The count summary cites N; the
  results are shown, the loading and error elements hidden. The page after a generation
  response with a truthy \<open>success\<close> that carries this list is the page so rendered.
\<close>

theorem showResults_renders_pairs:
  assumes "\<forall>i < length cards.
             get_prop (cards ! i) (js ''question'') = Inr (JStr (question i))
           \<and> get_prop (cards ! i) (js ''answer'') = Inr (JStr (answer i))"
  shows \<open>\<exists>s'. showResults (JArr cards) s = (None, s')
           \<and> length (flashcardsContainer_children s') = length cards
           \<and> (\<forall>i < length cards. \<exists>front back.
                 escapeHtml (JStr (question i)) = Inr front
               \<and> displayed_text front = Some (question i)
               \<and> escapeHtml (JStr (answer i)) = Inr back
               \<and> displayed_text back = Some (answer i)
               \<and> flashcardsContainer_children s' ! i =
                   \<lparr>className = js ''flashcard'',
                    innerHTML =
                      js ''\<newline>            <div class="flashcard-inner" onclick="this.classList.toggle('flip')">\<newline>''
                      @ js ''                <div class="flashcard-front">\<newline>''
                      @ js ''                    <div class="flashcard-number">Q'' @ decimal (i + 1) @ js ''</div>\<newline>''
                      @ js ''                    <div>'' @ front @ js ''</div>\<newline>''
                      @ js ''                </div>\<newline>''
                      @ js ''                <div class="flashcard-back">\<newline>''
                      @ js ''                    <div class="flashcard-number">A'' @ decimal (i + 1) @ js ''</div>\<newline>''
                      @ js ''                    <div>'' @ back @ js ''</div>\<newline>''
                      @ js ''                </div>\<newline>''
                      @ js ''            </div>\<newline>''
                      @ js ''        ''\<rparr>)
           \<and> resultsCount_textContent s' =
                 check_mark @ js '' Generated '' @ decimal (length cards) @ js '' flashcards!''
           \<and> \<not> results_hidden s' \<and> loading_hidden s' \<and> error_hidden s'
           \<and> (\<forall>e s0 file files u ps.
                 fileInput_files s0 = file # files
               \<and> readAsDataURL e file = Inr u
               \<and> fetch_json e (generate_request file u) = Inr (JObj ps)
               \<and> truthy (own_property ps (js ''success''))
               \<and> own_property ps (js ''flashcards'') = JArr cards
               \<and> s = (showLoading s0)\<lparr>requests := requests s0 @ [generate_request file u],
                                        currentFlashcards := JArr cards\<rparr>
               \<longrightarrow> generateBtn_click e s0 = s')\<close>
proof -
  obtain s' where s': "showResults (JArr cards) s = (None, s')"
    using showResults_cards [OF assms] by simp
  have handler: "generateBtn_click e s0 = s'"
    if "fileInput_files s0 = f # fs" "readAsDataURL e f = Inr u"
       "fetch_json e (generate_request f u) = Inr (JObj ps)"
       "truthy (own_property ps (js ''success''))"
       "own_property ps (js ''flashcards'') = JArr cards"
       "s = (showLoading s0)\<lparr>requests := requests s0 @ [generate_request f u],
                                        currentFlashcards := JArr cards\<rparr>"
    for e s0 f fs u ps
  proof -
    have "generate_try e f (showLoading s0) = showResults (JArr cards) s"
      using that
      by (subst generate_try_success
            [where data = "JObj ps" and v = "own_property ps (js ''success'')" and fc = "JArr cards"])
         (simp_all add: showLoading_frame)
    then show ?thesis
      using generate_no_exception [OF that(1), of e s'] s' by simp
  qed
  have s'_eq: "s' = snd (showResults (JArr cards) s)"
    using s' by simp
  have props: \<open>length (flashcardsContainer_children s') = length cards
           \<and> (\<forall>i < length cards. \<exists>front back.
                 escapeHtml (JStr (question i)) = Inr front
               \<and> displayed_text front = Some (question i)
               \<and> escapeHtml (JStr (answer i)) = Inr back
               \<and> displayed_text back = Some (answer i)
               \<and> flashcardsContainer_children s' ! i =
                   \<lparr>className = js ''flashcard'',
                    innerHTML =
                      js ''\<newline>            <div class="flashcard-inner" onclick="this.classList.toggle('flip')">\<newline>''
                      @ js ''                <div class="flashcard-front">\<newline>''
                      @ js ''                    <div class="flashcard-number">Q'' @ decimal (i + 1) @ js ''</div>\<newline>''
                      @ js ''                    <div>'' @ front @ js ''</div>\<newline>''
                      @ js ''                </div>\<newline>''
                      @ js ''                <div class="flashcard-back">\<newline>''
                      @ js ''                    <div class="flashcard-number">A'' @ decimal (i + 1) @ js ''</div>\<newline>''
                      @ js ''                    <div>'' @ back @ js ''</div>\<newline>''
                      @ js ''                </div>\<newline>''
                      @ js ''            </div>\<newline>''
                      @ js ''        ''\<rparr>)
           \<and> resultsCount_textContent s' =
                 check_mark @ js '' Generated '' @ decimal (length cards) @ js '' flashcards!''
           \<and> \<not> results_hidden s' \<and> loading_hidden s' \<and> error_hidden s'\<close>
    unfolding s'_eq showResults_cards [OF assms]
    by (simp add: flashcard_markup_def escapeHtml_JStr displayed_text_escape)
  show ?thesis
    using s' props handler by blast
qed

theorem showResults_renders_pairs_witness:
  \<open>get_prop sample_card (js ''question'') = Inr (JStr (js ''2+2?''))
   \<and> get_prop sample_card (js ''answer'') = Inr (JStr (js ''4''))
   \<and> fst (showResults (JArr [sample_card]) (sample_page [] (JArr []))) = None
   \<and> flashcardsContainer_children (snd (showResults (JArr [sample_card]) (sample_page [] (JArr []))))
       = [\<lparr>className = js ''flashcard'',
           innerHTML =
             js ''\<newline>            <div class="flashcard-inner" onclick="this.classList.toggle('flip')">\<newline>''
             @ js ''                <div class="flashcard-front">\<newline>''
             @ js ''                    <div class="flashcard-number">Q1</div>\<newline>''
             @ js ''                    <div>2+2?</div>\<newline>''
             @ js ''                </div>\<newline>''
             @ js ''                <div class="flashcard-back">\<newline>''
             @ js ''                    <div class="flashcard-number">A1</div>\<newline>''
             @ js ''                    <div>4</div>\<newline>''
             @ js ''                </div>\<newline>''
             @ js ''            </div>\<newline>''
             @ js ''        ''\<rparr>]
   \<and> resultsCount_textContent (snd (showResults (JArr [sample_card]) (sample_page [] (JArr []))))
       = check_mark @ js '' Generated 1 flashcards!''\<close>
  using showResults_renders_pairs
          [of "[sample_card]" "\<lambda>i. js ''2+2?''" "\<lambda>i. js ''4''" "sample_page [] (JArr [])"]
  by (simp add: sample_card_def sample_page_def own_property_def js_def showResults_def
        createFlashcardElement_def escapeHtml_def textContent_arg_def replace_newlines_def
        serialize_text_def escape_unit_def Number_toString_def decimal.simps flashcard_markup_def)

subsection \<open>A text written by JSON.stringify is read back by JSON.parse\<close>

text \<open>Strings: every escape written by \<open>QuoteJSONString\<close> is read back as the code unit.\<close>

lemma unat_small: "k < 65536 \<Longrightarrow> unat (of_nat k :: 16 word) = k"
  by (simp add: unat_of_nat)

lemma unat_hexdigit: "d < 16 \<Longrightarrow> unat (hexdigit d) = (if d < 10 then 48 + d else 87 + d)"
  by (simp add: hexdigit_def unat_small del: of_nat_add)

lemma hex_value_hexdigit: "d < 16 \<Longrightarrow> hex_value (hexdigit d) = Some d"
  by (simp add: hex_value_def unat_hexdigit Let_def)

lemma hex_digits_sum:
  fixes u :: nat
  shows "((u div 4096 * 16 + u div 256 mod 16) * 16 + u div 16 mod 16) * 16 + u mod 16 = u"
proof -
  have "u div 256 = u div 16 div 16" "u div 4096 = u div 256 div 16"
    by (simp_all add: div_mult2_eq [symmetric])
  then have a: "u div 16 = (u div 256) * 16 + u div 16 mod 16"
    and b: "u div 256 = (u div 4096) * 16 + u div 256 mod 16"
    by simp_all
  have "u = (u div 16) * 16 + u mod 16"
    by simp
  then show ?thesis
    using a b by simp
qed

lemma hex4_unicode_escape:
  "hex4 (hexdigit (unat c div 4096)) (hexdigit (unat c div 256 mod 16))
        (hexdigit (unat c div 16 mod 16)) (hexdigit (unat (c :: 16 word) mod 16)) = Some c"
proof -
  have lt: "unat c < 65536"
    using unsigned_less [of c, where 'a = nat] by simp
  then have d: "unat c div 4096 < 16"
    by simp
  have "hex4 (hexdigit (unat c div 4096)) (hexdigit (unat c div 256 mod 16))
        (hexdigit (unat c div 16 mod 16)) (hexdigit (unat c mod 16))
      = Some (of_nat (((unat c div 4096 * 16 + unat c div 256 mod 16) * 16
                        + unat c div 16 mod 16) * 16 + unat c mod 16))"
    by (simp add: hex4_def hex_value_hexdigit d del: of_nat_add of_nat_mult)
  also have "\<dots> = Some (of_nat (unat c))"
    by (simp only: hex_digits_sum)
  finally show ?thesis
    by simp
qed

lemma parse_chars_unicode_escape:
  "parse_chars (unicode_escape c @ rest) = prepend c (parse_chars rest)"
  by (simp add: unicode_escape_def hex4_unicode_escape)

lemma surrogate_plain:
  assumes "is_high c \<or> is_low c"
  shows "c \<noteq> 0x22" "c \<noteq> 0x5C" "\<not> c < 0x20"
  using assms by (auto simp add: is_high_def is_low_def word_le_nat_alt word_less_nat_alt)

lemma parse_chars_plain:
  assumes "c \<noteq> 0x22" "c \<noteq> 0x5C" "\<not> c < 0x20"
  shows "parse_chars (c # rest) = prepend c (parse_chars rest)"
  using assms by simp

lemma parse_chars_end: "parse_chars (0x22 # rest) = Some ([], rest)"
  by simp

lemma parse_chars_quote_unit:
  "parse_chars (quote_unit c @ rest) = prepend c (parse_chars rest)"
proof (cases "c = 0x08 \<or> c = 0x09 \<or> c = 0x0A \<or> c = 0x0C \<or> c = 0x0D \<or> c = 0x22 \<or> c = 0x5C")
  case True
  then show ?thesis
    by (auto simp add: quote_unit_def unescape_def)
next
  case short: False
  show ?thesis
  proof (cases "c < 0x20 \<or> is_high c \<or> is_low c")
    case True
    then have "quote_unit c = unicode_escape c"
      using short by (simp add: quote_unit_def)
    then show ?thesis
      by (simp only: parse_chars_unicode_escape)
  next
    case False
    then have "quote_unit c = [c]"
      using short by (simp add: quote_unit_def)
    then show ?thesis
      using short False by (simp add: parse_chars_plain)
  qed
qed

lemma parse_chars_pair:
  assumes "is_high c" "is_low d"
  shows "parse_chars (c # d # rest) = prepend c (prepend d (parse_chars rest))"
  using surrogate_plain [of c] surrogate_plain [of d] assms
  by (simp only: parse_chars_plain simp_thms)

lemma parse_chars_quote_units:
  "parse_chars (quote_units s @ 0x22 # rest) = Some (s, rest)"
proof (induction s rule: quote_units.induct)
  case 1
  show ?case by simp
next
  case (2 c)
  show ?case
    by (simp add: parse_chars_quote_unit parse_chars_end prepend_def del: parse_chars.simps(2))
next
  case (3 c d cs)
  show ?case
  proof (cases "is_high c \<and> is_low d")
    case True
    then have "quote_units (c # d # cs) @ 0x22 # rest = c # d # (quote_units cs @ 0x22 # rest)"
      by simp
    then show ?thesis
      using 3(1) [OF True] True by (simp only: parse_chars_pair prepend_def option.case prod.case)
  next
    case False
    then have "quote_units (c # d # cs) @ 0x22 # rest
                 = quote_unit c @ (quote_units (d # cs) @ 0x22 # rest)"
      by auto
    then show ?thesis
      using 3(2) [OF False]
      by (simp only: parse_chars_quote_unit prepend_def option.case prod.case)
  qed
qed

text \<open>Numbers: the decimal digits of an integer are read back as the integer.\<close>

lemma unat_digit: "d < 10 \<Longrightarrow> unat (48 + of_nat d :: 16 word) = 48 + d"
  using unat_small [of "48 + d"] by simp

lemma is_digit_unat: "is_digit c \<longleftrightarrow> 48 \<le> unat c \<and> unat c \<le> 57"
  by (simp add: is_digit_def word_le_nat_alt)

lemma digit_facts:
  assumes "d < 10"
  shows "is_digit (48 + of_nat d)" "uint (48 + of_nat d :: 16 word) - 48 = int d"
    "(48 + of_nat d :: 16 word) \<noteq> 0x2D" "(of_nat d :: 16 word) = 0 \<longleftrightarrow> d = 0"
proof -
  show "is_digit (48 + of_nat d)"
    using assms by (simp add: is_digit_unat unat_digit)
  show "uint (48 + of_nat d :: 16 word) - 48 = int d"
    using assms by (simp add: uint_nat unat_digit)
  show "(48 + of_nat d :: 16 word) \<noteq> 0x2D"
    using unat_digit [OF assms] by (auto simp add: word_unat_eq_iff)
  show "(of_nat d :: 16 word) = 0 \<longleftrightarrow> d = 0"
    using unat_small [of d] assms by (auto simp add: word_unat_eq_iff)
qed

lemma decimal_digits: "list_all is_digit (decimal n)"
proof (induction n rule: decimal.induct)
  case (1 n)
  show ?case
  proof (cases "n < 10")
    case True
    then show ?thesis
      by (subst decimal.simps) (simp add: digit_facts)
  next
    case False
    then show ?thesis
      using 1 by (subst decimal.simps) (simp add: digit_facts)
  qed
qed

lemma decimal_nonempty: "decimal n \<noteq> []"
  by (subst decimal.simps) simp

lemma digits_value_snoc: "digits_value (ds @ [c]) = 10 * digits_value ds + (uint c - 48)"
  by (simp add: digits_value_def)

lemma digits_value_decimal: "digits_value (decimal n) = int n"
proof (induction n rule: decimal.induct)
  case (1 n)
  show ?case
  proof (cases "n < 10")
    case True
    then show ?thesis
      by (subst decimal.simps) (simp add: digits_value_def digit_facts)
  next
    case False
    then have "digits_value (decimal n) = 10 * int (n div 10) + int (n mod 10)"
      using 1 by (subst decimal.simps) (simp add: digits_value_snoc digit_facts)
    then show ?thesis
      by (simp add: zdiv_int zmod_int)
  qed
qed

lemma decimal_leading: "0 < n \<Longrightarrow> hd (decimal n) \<noteq> 0x30"
proof (induction n rule: decimal.induct)
  case (1 n)
  show ?case
  proof (cases "n < 10")
    case True
    then show ?thesis
      using 1(2) by (subst decimal.simps) (simp add: digit_facts)
  next
    case False
    then have "hd (decimal n) = hd (decimal (n div 10))"
      by (subst decimal.simps) (simp add: decimal_nonempty)
    then show ?thesis
      using 1(1) False by simp
  qed
qed

lemma decimal_no_leading_zero:
  assumes "decimal n = d # ds" "d = 0x30"
  shows "ds = []"
proof (cases "n < 10")
  case True
  then show ?thesis
    using assms(1) by (subst (asm) decimal.simps) simp
next
  case False
  then have "hd (decimal n) \<noteq> 0x30"
    by (intro decimal_leading) simp
  then show ?thesis
    using assms by simp
qed

lemma decimal_first: "\<exists>d ds. decimal n = d # ds \<and> is_digit d"
  using decimal_nonempty [of n] decimal_digits [of n] by (cases "decimal n") simp_all

lemma terminated_digit:
  assumes "terminated rest"
  shows "takeWhile is_digit rest = []" "dropWhile is_digit rest = rest"
    "\<not> (case rest of [] \<Rightarrow> False | c # _ \<Rightarrow> c = 0x2E \<or> c = 0x65 \<or> c = 0x45)"
  using assms by (auto simp add: terminated_def is_digit_def split: list.splits)

lemma digits_then_rest:
  assumes "terminated rest"
  shows "takeWhile is_digit (decimal n @ rest) = decimal n"
    and "dropWhile is_digit (decimal n @ rest) = rest"
  using decimal_digits [of n] terminated_digit [OF assms]
  by (simp_all add: takeWhile_append2 dropWhile_append2 list_all_iff)

lemma parse_number_decimal:
  assumes "terminated rest"
  shows "parse_number (decimal n @ rest) = Some (JNum (int n), rest)"
proof -
  obtain d ds where d: "decimal n = d # ds" "is_digit d"
    using decimal_first by blast
  then have "d \<noteq> 0x2D"
    by (auto simp add: is_digit_def)
  moreover have "\<not> (d = 0x30 \<and> ds \<noteq> [])"
    using decimal_no_leading_zero [OF d(1)] by blast
  moreover have "digits_value (d # ds) = int n"
    using digits_value_decimal [of n] d(1) by simp
  ultimately show ?thesis
    using digits_then_rest [OF assms, of n] terminated_digit(3) [OF assms] d(1)
    by (simp add: parse_number_def Let_def)
qed

lemma parse_number_negative:
  assumes "terminated rest"
  shows "parse_number (0x2D # decimal n @ rest) = Some (JNum (- int n), rest)"
proof -
  obtain d ds where d: "decimal n = d # ds" "is_digit d"
    using decimal_first by blast
  have "\<not> (d = 0x30 \<and> ds \<noteq> [])"
    using decimal_no_leading_zero [OF d(1)] by blast
  moreover have "digits_value (d # ds) = int n"
    using digits_value_decimal [of n] d(1) by simp
  ultimately show ?thesis
    using digits_then_rest [OF assms, of n] terminated_digit(3) [OF assms] d(1)
    by (simp add: parse_number_def Let_def)
qed

lemma parse_number_toString:
  assumes "terminated rest"
  shows "parse_number (Number_toString i @ rest) = Some (JNum i, rest)"
proof (cases "i < 0")
  case True
  then show ?thesis
    using parse_number_negative [OF assms, of "nat (- i)"]
    by (simp add: Number_toString_def js_def)
next
  case False
  then show ?thesis
    using parse_number_decimal [OF assms, of "nat i"]
    by (simp add: Number_toString_def)
qed

text \<open>White space and the first character of a value's text.\<close>

lemma skip_ws_append: "list_all is_ws w \<Longrightarrow> skip_ws (w @ s) = skip_ws s"
  by (simp add: skip_ws_def dropWhile_append2 list_all_iff)

lemma skip_ws_plain: "\<not> is_ws c \<Longrightarrow> skip_ws (c # s) = c # s"
  by (simp add: skip_ws_def)

lemma parse_value_ws: "list_all is_ws w \<Longrightarrow> parse_value n (w @ s) = parse_value n s"
  by (cases n) (simp_all add: skip_ws_append)

lemma parse_members_ws: "list_all is_ws w \<Longrightarrow> parse_members n (w @ s) = parse_members n s"
  by (cases n) (simp_all add: skip_ws_append)

lemma not_ws: "\<not> is_ws 0x22" "\<not> is_ws 0x2C" "\<not> is_ws 0x3A" "\<not> is_ws 0x5B" "\<not> is_ws 0x5D"
  "\<not> is_ws 0x7B" "\<not> is_ws 0x7D" "\<not> is_ws 0x2D"
  by (simp_all add: is_ws_def)

lemma is_ws_space: "is_ws 0x20" "is_ws 0x0A"
  by (simp_all add: is_ws_def)

lemma digit_not_ws: "is_digit c \<Longrightarrow> \<not> is_ws c \<and> c \<noteq> 0x22 \<and> c \<noteq> 0x5B \<and> c \<noteq> 0x7B
    \<and> c \<noteq> 0x5D \<and> c \<noteq> 0x74 \<and> c \<noteq> 0x66 \<and> c \<noteq> 0x6E"
  by (auto simp add: is_digit_unat is_ws_def)

text \<open>What a value's text looks like at its start.\<close>

lemma Number_toString_first:
  "\<exists>c cs. Number_toString i = c # cs \<and> (c = 0x2D \<or> is_digit c)"
  using decimal_first [of "nat i"] decimal_first [of "nat (- i)"]
  by (auto simp add: Number_toString_def js_def)

lemma wrap_shape:
  assumes "partial \<noteq> []"
  shows "wrap gap stepback l r partial =
           l # (if gap = [] then [] else 0x0A # stepback @ gap)
             @ join (0x2C # (if gap = [] then [] else 0x0A # stepback @ gap)) partial
             @ (if gap = [] then [] else 0x0A # stepback) @ [r]"
  using assms by (simp add: wrap_def)

lemma wrap_first: "\<exists>cs. wrap gap stepback l r partial = l # cs"
  by (simp add: wrap_def)

lemma SerializeJSON_first:
  assumes "SerializeJSON gap ind v = Some t"
  shows "\<exists>c cs. t = c # cs \<and> \<not> is_ws c \<and> c \<noteq> 0x5D"
proof (cases v)
  case (JNum i)
  then show ?thesis
    using assms Number_toString_first [of i] digit_not_ws by (auto simp add: not_ws)
next
  case (JStr s)
  then show ?thesis
    using assms by (auto simp add: QuoteJSONString_def not_ws)
next
  case (JArr xs)
  then show ?thesis
    using assms wrap_first [of gap ind "0x5B" "0x5D"] by (fastforce simp add: not_ws)
next
  case (JObj ps)
  then show ?thesis
    using assms wrap_first [of gap ind "0x7B" "0x7D"] by (fastforce simp add: not_ws)
qed (use assms in \<open>auto simp add: js_def is_ws_def\<close>)

lemma json_value_serializes:
  "json_value v \<Longrightarrow> \<exists>t. SerializeJSON gap ind v = Some t"
  by (cases v) simp_all

text \<open>
  The elements of an array and the members of an object, given that each value among them
  is read back; the fuel needed is at most the length of the text.
\<close>

declare parse_value.simps [simp del] parse_elements.simps [simp del] parse_members.simps [simp del]

lemma join_first: "\<exists>more. join sep (t # ts) = t @ more"
  by (cases ts) simp_all

lemma terminated_simps:
  "terminated (0x2C # s)" "terminated (0x5D # s)" "terminated (0x7D # s)" "terminated (0x0A # s)"
  "terminated []"
  by (simp_all add: terminated_def)

lemma parse_elements_one:
  assumes "parse_value m s = Some (x, r)" "list_all is_ws post" "r = post @ 0x5D # rest"
  shows "parse_elements (Suc m) s = Some ([x], rest)"
  using assms by (simp add: parse_elements.simps skip_ws_append skip_ws_plain not_ws)

lemma parse_elements_more:
  assumes "parse_value m s = Some (x, 0x2C # r)" "parse_elements m r = Some (xs, rest)"
  shows "parse_elements (Suc m) s = Some (x # xs, rest)"
  using assms by (simp add: parse_elements.simps skip_ws_plain not_ws)

lemma parse_elements_texts:
  assumes "\<And>x t rest n. x \<in> set xs \<Longrightarrow> SerializeJSON gap ind x = Some t \<Longrightarrow> terminated rest
             \<Longrightarrow> length t \<le> n \<Longrightarrow> parse_value n (t @ rest) = Some (x, rest)"
      and "list_all json_value xs" "xs \<noteq> []"
      and "list_all is_ws pre" "list_all is_ws post" "terminated (post @ 0x5D # rest)"
      and "length (pre @ join (0x2C # pre)
             (map (\<lambda>x. case SerializeJSON gap ind x of None \<Rightarrow> js ''null'' | Some t \<Rightarrow> t) xs) @ post) < n"
  shows "parse_elements n
           (pre @ join (0x2C # pre)
             (map (\<lambda>x. case SerializeJSON gap ind x of None \<Rightarrow> js ''null'' | Some t \<Rightarrow> t) xs)
            @ post @ 0x5D # rest) = Some (xs, rest)"
  using assms
proof (induction xs arbitrary: n)
  case Nil
  then show ?case by simp
next
  case (Cons x xs)
  obtain m where n: "n = Suc m"
    using Cons.prems(7) by (cases n) simp_all
  obtain tx where tx: "SerializeJSON gap ind x = Some tx"
    using Cons.prems(2) json_value_serializes by fastforce
  have pv: "parse_value m (pre @ tx @ r) = Some (x, r)" if "terminated r" "length tx \<le> m" for r
    using Cons.prems(1) [OF _ tx that] Cons.prems(4) by (simp add: parse_value_ws)
  show ?case
  proof (cases xs)
    case Nil
    have "length tx \<le> m"
      using Cons.prems(7) n tx Nil by simp
    then have "parse_value m (pre @ tx @ post @ 0x5D # rest) = Some (x, post @ 0x5D # rest)"
      using pv Cons.prems(6) by simp
    then show ?thesis
      using parse_elements_one [OF _ Cons.prems(5) refl] n tx Nil by simp
  next
    case (Cons y ys)
    define tail where "tail = pre @ join (0x2C # pre)
             (map (\<lambda>x. case SerializeJSON gap ind x of None \<Rightarrow> js ''null'' | Some t \<Rightarrow> t) xs)
            @ post @ 0x5D # rest"
    have whole: "pre @ join (0x2C # pre)
             (map (\<lambda>x. case SerializeJSON gap ind x of None \<Rightarrow> js ''null'' | Some t \<Rightarrow> t) (x # xs))
            @ post @ 0x5D # rest = pre @ tx @ 0x2C # tail"
      using tx Cons by (simp add: tail_def)
    have "tx \<noteq> []"
      using SerializeJSON_first [OF tx] by auto
    then have len: "length tx \<le> m"
      "length (pre @ join (0x2C # pre)
             (map (\<lambda>x. case SerializeJSON gap ind x of None \<Rightarrow> js ''null'' | Some t \<Rightarrow> t) xs) @ post) < m"
      using Cons.prems(7) n tx Cons by (simp_all add: Suc_le_eq)
    have first: "parse_value m (pre @ tx @ 0x2C # tail) = Some (x, 0x2C # tail)"
      using pv [OF terminated_simps(1) len(1)] .
    have rest: "parse_elements m tail = Some (xs, rest)"
      unfolding tail_def
      using Cons.prems(2) Cons
      by (intro Cons.IH Cons.prems(1) Cons.prems(4) Cons.prems(5) Cons.prems(6) len(2)) simp_all
    show ?thesis
      unfolding whole n using parse_elements_more [OF first rest] .
  qed
qed

lemma parse_members_one:
  assumes "parse_value m s = Some (v, r)" "list_all is_ws post" "r = post @ 0x7D # rest"
  shows "parse_members (Suc m) (QuoteJSONString k @ 0x3A # s) = Some ([(k, v)], rest)"
  using assms
  by (simp add: parse_members.simps QuoteJSONString_def parse_chars_quote_units
        skip_ws_append skip_ws_plain not_ws del: parse_chars.simps)

lemma parse_members_more:
  assumes "parse_value m s = Some (v, 0x2C # r)" "parse_members m r = Some (ps, rest)"
  shows "parse_members (Suc m) (QuoteJSONString k @ 0x3A # s) = Some ((k, v) # ps, rest)"
  using assms
  by (simp add: parse_members.simps QuoteJSONString_def parse_chars_quote_units
        skip_ws_plain not_ws del: parse_chars.simps)

lemma parse_members_texts:
  assumes "\<And>k v t rest n. (k, v) \<in> set ps \<Longrightarrow> SerializeJSON gap ind v = Some t \<Longrightarrow> terminated rest
             \<Longrightarrow> length t \<le> n \<Longrightarrow> parse_value n (t @ rest) = Some (v, rest)"
      and "list_all (\<lambda>p. json_value (snd p)) ps" "ps \<noteq> []"
      and "list_all is_ws pre" "list_all is_ws post" "list_all is_ws sp"
      and "terminated (post @ 0x7D # rest)"
      and "length (pre @ join (0x2C # pre)
             (concat (map (\<lambda>(k, v). case SerializeJSON gap ind v of
                                        None \<Rightarrow> []
                                      | Some t \<Rightarrow> [QuoteJSONString k @ [0x3A] @ sp @ t]) ps)) @ post) < n"
  shows "parse_members n
           (pre @ join (0x2C # pre)
             (concat (map (\<lambda>(k, v). case SerializeJSON gap ind v of
                                        None \<Rightarrow> []
                                      | Some t \<Rightarrow> [QuoteJSONString k @ [0x3A] @ sp @ t]) ps))
            @ post @ 0x7D # rest) = Some (ps, rest)"
  using assms
proof (induction ps arbitrary: n)
  case Nil
  then show ?case by simp
next
  case (Cons p ps)
  obtain k v where p: "p = (k, v)"
    by (cases p)
  obtain m where n: "n = Suc m"
    using Cons.prems(8) by (cases n) simp_all
  obtain tv where tv: "SerializeJSON gap ind v = Some tv"
    using Cons.prems(2) p json_value_serializes by fastforce
  have mem: "(k, v) \<in> set (p # ps)"
    using p by simp
  have pv: "parse_value m (sp @ tv @ r) = Some (v, r)" if "terminated r" "length tv \<le> m" for r
    using Cons.prems(1) [OF mem tv that] Cons.prems(6) by (simp add: parse_value_ws)
  show ?case
  proof (cases ps)
    case Nil
    have "length tv \<le> m"
      using Cons.prems(8) n tv Nil p by simp
    then have "parse_value m (sp @ tv @ post @ 0x7D # rest) = Some (v, post @ 0x7D # rest)"
      using pv Cons.prems(7) by simp
    then have "parse_members (Suc m) (QuoteJSONString k @ 0x3A # sp @ tv @ post @ 0x7D # rest)
                 = Some ([(k, v)], rest)"
      using parse_members_one [OF _ Cons.prems(5) refl] by simp
    then show ?thesis
      using n tv Nil p Cons.prems(4) by (simp add: parse_members_ws)
  next
    case (Cons q qs)
    define tail where "tail = pre @ join (0x2C # pre)
             (concat (map (\<lambda>(k, v). case SerializeJSON gap ind v of
                                        None \<Rightarrow> []
                                      | Some t \<Rightarrow> [QuoteJSONString k @ [0x3A] @ sp @ t]) ps))
            @ post @ 0x7D # rest"
    obtain k' v' where q: "q = (k', v')"
      by (cases q)
    obtain tq where tq: "SerializeJSON gap ind v' = Some tq"
      using Cons.prems(2) Cons q json_value_serializes by fastforce
    have whole: "pre @ join (0x2C # pre)
             (concat (map (\<lambda>(k, v). case SerializeJSON gap ind v of
                                        None \<Rightarrow> []
                                      | Some t \<Rightarrow> [QuoteJSONString k @ [0x3A] @ sp @ t]) (p # ps)))
            @ post @ 0x7D # rest = pre @ QuoteJSONString k @ 0x3A # sp @ tv @ 0x2C # tail"
      using tv tq Cons p q by (simp add: tail_def)
    have len: "length tv \<le> m"
      "length (pre @ join (0x2C # pre)
             (concat (map (\<lambda>(k, v). case SerializeJSON gap ind v of
                                        None \<Rightarrow> []
                                      | Some t \<Rightarrow> [QuoteJSONString k @ [0x3A] @ sp @ t]) ps)) @ post) < m"
      using Cons.prems(8) n tv tq Cons p q by (simp_all add: QuoteJSONString_def)
    have first: "parse_value m (sp @ tv @ 0x2C # tail) = Some (v, 0x2C # tail)"
      using pv [OF terminated_simps(1) len(1)] .
    have vals: "parse_value n (t @ rest) = Some (v, rest)"
      if "(k, v) \<in> set ps" "SerializeJSON gap ind v = Some t" "terminated rest" "length t \<le> n"
      for k v t rest n
      using Cons.prems(1) [of k v t rest n] that by simp
    have "list_all (\<lambda>p. json_value (snd p)) ps" "ps \<noteq> []"
      using Cons.prems(2) Cons by simp_all
    then have rest: "parse_members m tail = Some (ps, rest)"
      unfolding tail_def
      using Cons.IH [OF vals _ _ Cons.prems(4) Cons.prems(5) Cons.prems(6) Cons.prems(7) len(2)]
      by simp
    show ?thesis
      unfolding whole n
      using parse_members_more [OF first rest] Cons.prems(4) p by (simp add: parse_members_ws)
  qed
qed

lemma parse_value_literal:
  "parse_value (Suc m) (js ''null'' @ rest) = Some (JNull, rest)"
  "parse_value (Suc m) (js ''true'' @ rest) = Some (JBool True, rest)"
  "parse_value (Suc m) (js ''false'' @ rest) = Some (JBool False, rest)"
  by (simp_all add: parse_value.simps js_def skip_ws_def is_ws_def)

lemma parse_value_number:
  assumes "terminated rest"
  shows "parse_value (Suc m) (Number_toString i @ rest) = Some (JNum i, rest)"
proof -
  obtain c cs where c: "Number_toString i = c # cs" "c = 0x2D \<or> is_digit c"
    using Number_toString_first by blast
  then have plain: "\<not> is_ws c" "c \<noteq> 0x22" "c \<noteq> 0x5B" "c \<noteq> 0x7B" "c \<noteq> 0x74" "c \<noteq> 0x66" "c \<noteq> 0x6E"
    using digit_not_ws [of c] by (auto simp add: not_ws)
  have "parse_value (Suc m) (c # cs @ rest) = parse_number (c # cs @ rest)"
    using plain by (simp add: parse_value.simps skip_ws_plain js_def)
  then show ?thesis
    using parse_number_toString [OF assms, of i] c(1) by simp
qed

lemma parse_value_string:
  "parse_value (Suc m) (QuoteJSONString s @ rest) = Some (JStr s, rest)"
  by (simp add: parse_value.simps QuoteJSONString_def skip_ws_plain not_ws parse_chars_quote_units
        del: parse_chars.simps)

lemma parse_value_empty:
  "parse_value (Suc m) (0x5B # 0x5D # rest) = Some (JArr [], rest)"
  "parse_value (Suc m) (0x7B # 0x7D # rest) = Some (JObj [], rest)"
  by (simp_all add: parse_value.simps skip_ws_plain not_ws)

lemma parse_value_array:
  assumes "parse_elements m (pre @ c # s) = Some (xs, rest)" "list_all is_ws pre"
          "\<not> is_ws c" "c \<noteq> 0x5D"
  shows "parse_value (Suc m) (0x5B # pre @ c # s) = Some (JArr xs, rest)"
  using assms by (simp add: parse_value.simps skip_ws_plain skip_ws_append not_ws)

lemma parse_value_object:
  assumes "parse_members m (pre @ 0x22 # s) = Some (ps, rest)" "list_all is_ws pre"
  shows "parse_value (Suc m) (0x7B # pre @ 0x22 # s) = Some (JObj (object_from ps), rest)"
  using assms by (simp add: parse_value.simps skip_ws_plain skip_ws_append not_ws)

lemma pre_post_ws:
  assumes "list_all is_ws gap" "list_all is_ws ind"
  shows "list_all is_ws (if gap = [] then [] else 0x0A # ind @ gap)"
    and "list_all is_ws (if gap = [] then [] else 0x0A # ind)"
    and "list_all is_ws (if gap = [] then [] else [0x20])"
    and "terminated ((if gap = [] then [] else 0x0A # ind) @ 0x5D # rest)"
    and "terminated ((if gap = [] then [] else 0x0A # ind) @ 0x7D # rest)"
  using assms by (simp_all add: is_ws_space terminated_simps)

lemma parse_value_SerializeJSON:
  assumes "list_all is_ws gap" "list_all is_ws ind" "json_value v"
      and "SerializeJSON gap ind v = Some t" "terminated rest" "length t \<le> n"
  shows "parse_value n (t @ rest) = Some (v, rest)"
  using assms
proof (induction gap ind v arbitrary: t rest n rule: SerializeJSON.induct)
  case (1 gap ind)
  then show ?case by simp
next
  case (2 gap ind)
  obtain m where "n = Suc m"
    using 2(4,6) by (cases n) (auto simp add: js_def)
  then show ?case
    using 2(4) by (auto simp add: parse_value_literal)
next
  case (3 gap ind b)
  obtain m where "n = Suc m"
    using 3(4,6) by (cases n; cases b) (auto simp add: js_def)
  then show ?case
    using 3(4) by (auto simp add: parse_value_literal)
next
  case (4 gap ind i)
  obtain m where "n = Suc m"
    using 4(4,6) Number_toString_first [of i] by (cases n) auto
  then show ?case
    using 4(4) parse_value_number [OF 4(5), of _ i] by auto
next
  case (5 gap ind s)
  obtain m where "n = Suc m"
    using 5(4,6) by (cases n) (auto simp add: QuoteJSONString_def)
  then show ?case
    using 5(4) parse_value_string [of _ s rest] by auto
next
  case (6 gap ind xs)
  define pre where "pre = (if gap = [] then [] else 0x0A # ind @ gap)"
  define post where "post = (if gap = [] then [] else 0x0A # ind)"
  define texts where "texts = map (\<lambda>x. case SerializeJSON gap (ind @ gap) x of
                   None \<Rightarrow> js ''null''
                 | Some t \<Rightarrow> t) xs"
  have t: "t = wrap gap ind 0x5B 0x5D texts"
    using 6(5) by (simp add: texts_def)
  show ?case
  proof (cases xs)
    case Nil
    then have "t = [0x5B, 0x5D]"
      using t by (simp add: texts_def wrap_def)
    then show ?thesis
      using 6(7) Nil parse_value_empty(1) by (cases n) simp_all
  next
    case (Cons x xs')
    then have shape: "t = 0x5B # pre @ join (0x2C # pre) texts @ post @ [0x5D]"
      using t wrap_shape [of texts gap ind "0x5B" "0x5D"] by (simp add: texts_def pre_def post_def)
    obtain m where n: "n = Suc m"
      using 6(7) shape by (cases n) simp_all
    obtain tx where tx: "SerializeJSON gap (ind @ gap) x = Some tx"
      using 6(4) Cons json_value_serializes by fastforce
    obtain c cs where c: "tx = c # cs" "\<not> is_ws c" "c \<noteq> 0x5D"
      using SerializeJSON_first [OF tx] by blast
    obtain more where more: "join (0x2C # pre) texts = c # more"
      using join_first [of "0x2C # pre" tx] tx c(1) Cons by (auto simp add: texts_def)
    have ws: "list_all is_ws pre" "list_all is_ws post" "terminated (post @ 0x5D # rest)"
      unfolding pre_def post_def using pre_post_ws [OF 6(2) 6(3)] by simp_all
    have "parse_elements m (pre @ join (0x2C # pre) texts @ post @ 0x5D # rest) = Some (xs, rest)"
      unfolding texts_def
    proof (rule parse_elements_texts)
      fix x t rest n
      assume "x \<in> set xs" "SerializeJSON gap (ind @ gap) x = Some t" "terminated rest" "length t \<le> n"
      then show "parse_value n (t @ rest) = Some (x, rest)"
        using 6(1) [of x t rest n] 6(2) 6(3) 6(4) by (auto simp add: list_all_iff)
    next
      show "list_all json_value xs" using 6(4) by simp
      show "xs \<noteq> []" using Cons by simp
      show "list_all is_ws pre" "list_all is_ws post" "terminated (post @ 0x5D # rest)"
        using ws by simp_all
      show "length (pre @ join (0x2C # pre)
               (map (\<lambda>x. case SerializeJSON gap (ind @ gap) x of None \<Rightarrow> js ''null'' | Some t \<Rightarrow> t) xs)
             @ post) < m"
        using 6(7) shape n by (simp add: texts_def)
    qed
    then have "parse_value (Suc m) (0x5B # pre @ c # (more @ post @ 0x5D # rest)) = Some (JArr xs, rest)"
      using more by (intro parse_value_array ws c) simp
    then show ?thesis
      using shape n more by simp
  qed
next
  case (7 gap ind ps)
  define pre where "pre = (if gap = [] then [] else 0x0A # ind @ gap)"
  define post where "post = (if gap = [] then [] else 0x0A # ind)"
  define sp :: jsstring where "sp = (if gap = [] then [] else [0x20])"
  define texts where "texts = concat (map (\<lambda>(k, v). case SerializeJSON gap (ind @ gap) v of
                        None \<Rightarrow> []
                      | Some t \<Rightarrow> [QuoteJSONString k @ [0x3A] @ sp @ t]) ps)"
  have t: "t = wrap gap ind 0x7B 0x7D texts"
    unfolding texts_def sp_def using 7(5) by auto
  have canonical: "object_from ps = ps" and vals: "list_all (\<lambda>p. json_value (snd p)) ps"
    using 7(4) by simp_all
  show ?case
  proof (cases ps)
    case Nil
    then have "t = [0x7B, 0x7D]"
      using t by (simp add: texts_def wrap_def)
    then show ?thesis
      using 7(7) Nil parse_value_empty(2) by (cases n) simp_all
  next
    case (Cons p ps')
    obtain k v where p: "p = (k, v)"
      by (cases p)
    obtain tv where tv: "SerializeJSON gap (ind @ gap) v = Some tv"
      using vals Cons p json_value_serializes by fastforce
    have nonempty: "texts \<noteq> []"
      using Cons p tv by (simp add: texts_def)
    then have shape: "t = 0x7B # pre @ join (0x2C # pre) texts @ post @ [0x7D]"
      using t wrap_shape [of texts gap ind "0x7B" "0x7D"] by (simp add: pre_def post_def)
    obtain m where n: "n = Suc m"
      using 7(7) shape by (cases n) simp_all
    obtain more where more: "join (0x2C # pre) texts = 0x22 # more"
      using join_first [of "0x2C # pre" "QuoteJSONString k @ [0x3A] @ sp @ tv"] tv Cons p
      by (auto simp add: texts_def QuoteJSONString_def)
    have ws: "list_all is_ws pre" "list_all is_ws post" "list_all is_ws sp"
         "terminated (post @ 0x7D # rest)"
      unfolding pre_def post_def sp_def using pre_post_ws [OF 7(2) 7(3)] by simp_all
    have "parse_members m (pre @ join (0x2C # pre) texts @ post @ 0x7D # rest) = Some (ps, rest)"
      unfolding texts_def
    proof (rule parse_members_texts)
      fix k v t rest n
      assume a: "(k, v) \<in> set ps" "SerializeJSON gap (ind @ gap) v = Some t" "terminated rest"
             "length t \<le> n"
      have "json_value v"
        using vals a(1) by (force simp add: list_all_iff)
      moreover have "list_all is_ws (ind @ gap)"
        using 7(2) 7(3) by simp
      ultimately show "parse_value n (t @ rest) = Some (v, rest)"
        using 7(1) [OF a(1) refl 7(2) _ _ a(2) a(3) a(4)] by simp
    next
      show "list_all (\<lambda>p. json_value (snd p)) ps" using vals .
      show "ps \<noteq> []" using Cons by simp
      show "list_all is_ws pre" "list_all is_ws post" "list_all is_ws sp"
           "terminated (post @ 0x7D # rest)"
        using ws by simp_all
      show "length (pre @ join (0x2C # pre)
               (concat (map (\<lambda>(k, v). case SerializeJSON gap (ind @ gap) v of
                        None \<Rightarrow> []
                      | Some t \<Rightarrow> [QuoteJSONString k @ [0x3A] @ sp @ t]) ps))
             @ post) < m"
        using 7(7) shape n by (simp add: texts_def)
    qed
    then have "parse_value (Suc m) (0x7B # pre @ 0x22 # (more @ post @ 0x7D # rest))
                 = Some (JObj (object_from ps), rest)"
      using more by (intro parse_value_object ws) simp
    then show ?thesis
      using shape n more canonical by simp
  qed
qed

theorem JSON_parse_stringify:
  assumes "json_value v" "JSON_stringify v k = Some t"
  shows "JSON_parse t = Some v"
proof -
  have "parse_value (length t) (t @ []) = Some (v, [])"
    using assms
    by (intro parse_value_SerializeJSON [where gap = "replicate (min k 10) 0x20" and ind = "[]"])
       (simp_all add: JSON_stringify_def list_all_iff is_ws_space terminated_simps)
  then show ?thesis
    by (simp add: JSON_parse_def skip_ws_def)
qed

subsection \<open>Export\<close>

lemma forEach_card_frame:
  "currentFlashcards (snd (forEach_card cards index s)) = currentFlashcards s
   \<and> requests (snd (forEach_card cards index s)) = requests s
   \<and> downloads (snd (forEach_card cards index s)) = downloads s"
  by (induction cards arbitrary: index s) (simp_all split: sum.splits)

lemma showResults_frame:
  "currentFlashcards (snd (showResults fc s)) = currentFlashcards s"
  "requests (snd (showResults fc s)) = requests s"
  "downloads (snd (showResults fc s)) = downloads s"
  by (simp_all add: showResults_def Let_def forEach_card_frame split: sum.splits jsval.splits)

lemma showError_requests: "requests (snd (showError m s)) = requests s"
  by (simp add: showError_def Let_def split: sum.splits)

lemma catch_frame:
  assumes "fileInput_files s = file # files"
  shows "currentFlashcards (generateBtn_click e s)
           = currentFlashcards (snd (generate_try e file (showLoading s)))"
    and "requests (generateBtn_click e s) = requests (snd (generate_try e file (showLoading s)))"
  using assms
  by (cases "generate_try e file (showLoading s)";
      auto simp add: generateBtn_click_def showError_frame showError_requests
        split: option.splits sum.splits)+

lemma generate_logs_request:
  assumes "fileInput_files s = file # files" "readAsDataURL e file = Inr u"
  shows "requests (generateBtn_click e s) = requests s @ [generate_request file u]"
proof -
  have "requests (snd (generate_try e file (showLoading s)))
          = requests s @ [generate_request file u]"
    using assms(2)
    by (simp add: generate_try_def fileToBase64_def Let_def showResults_frame showError_requests
          showLoading_frame split: sum.splits)
  then show ?thesis
    using catch_frame(2) [OF assms(1), of e] by simp
qed




























subsection \<open>The body of the generation request\<close>

lemma String_split_none: "sep \<notin> set s \<Longrightarrow> String_split sep s = [s]"
  by (induction s) auto

lemma String_split_first:
  "sep \<notin> set p \<Longrightarrow> String_split sep (p @ sep # r) = p # String_split sep r"
  by (induction p) auto

lemma one_comma:
  assumes "count_list u c = 1"
  obtains p r where "u = p @ c # r" "c \<notin> set p" "c \<notin> set r"
proof -
  have "c \<in> set u"
    using assms count_list_0_iff [of u c] by auto
  then obtain p r where u: "u = p @ c # r" "c \<notin> set p"
    using split_list_first by fastforce
  then have "count_list r c = 0"
    using assms count_list_0_iff [of p c] by simp
  then have "c \<notin> set r"
    by (simp add: count_list_0_iff)
  then show ?thesis
    using that u by blast
qed

lemma text_after_first_comma_split:
  assumes "0x2C \<notin> set p"
  shows "text_after_first_comma (p @ 0x2C # r) = r"
proof -
  have "dropWhile (\<lambda>c. c \<noteq> 0x2C) (p @ 0x2C # r) = 0x2C # r"
    using assms by (induction p) simp_all
  then show ?thesis
    by (simp add: text_after_first_comma_def)
qed

lemma file_content_one_comma:
  assumes "count_list u 0x2C = 1"
  shows "element_at (String_split 0x2C u) 1 = JStr (text_after_first_comma u)"
proof -
  obtain p r where u: "u = p @ 0x2C # r" "0x2C \<notin> set p" "0x2C \<notin> set r"
    using one_comma [OF assms] by blast
  then have "String_split 0x2C u = [p, r]"
    by (simp add: String_split_first String_split_none)
  then show ?thesis
    using u text_after_first_comma_split by (simp add: element_at_def)
qed

lemma request_object_canonical:
  "object_from [(js ''file_content'', a), (js ''file_type'', b)]
     = [(js ''file_content'', a), (js ''file_type'', b)]"
  by (simp add: object_from_def index_before_def is_array_index_def is_digit_def js_def)

text \<open>
  For a data URL that holds exactly one comma, the body carries the text after it.
\<close>

lemma generate_request_body:
  assumes "fileInput_files s = file # files"
      and "readAsDataURL e file = Inr u"
      and "count_list u 0x2C = 1"
  shows "\<exists>b. requests (generateBtn_click e s) =
               requests s @ [\<lparr>url = js ''/api/generate_flashcards'', http_method = js ''POST'',
                               headers = [(js ''Content-Type'', js ''application/json'')],
                               body = Some b\<rparr>]
           \<and> JSON_parse b =
               Some (JObj [(js ''file_content'', JStr (text_after_first_comma u)),
                           (js ''file_type'', JStr (file_type file))])"
proof -
  define obj where "obj = JObj [(js ''file_content'', JStr (text_after_first_comma u)),
                           (js ''file_type'', JStr (file_type file))]"
  have "json_value obj"
    by (simp add: obj_def request_object_canonical)
  moreover obtain b where b: "JSON_stringify obj 0 = Some b"
    by (simp add: obj_def JSON_stringify_def)
  ultimately have "JSON_parse b = Some obj"
    by (rule JSON_parse_stringify)
  moreover have "generate_request file u =
      \<lparr>url = js ''/api/generate_flashcards'', http_method = js ''POST'',
        headers = [(js ''Content-Type'', js ''application/json'')], body = Some b\<rparr>"
    using b file_content_one_comma [OF assms(3)]
    by (simp add: generate_request_def post_json_def json_headers_def obj_def)
  ultimately show ?thesis
    using generate_logs_request [OF assms(1) assms(2)] by (simp add: obj_def)
qed

text \<open>
  C5. A selected file whose declared media type has a comma inside a quoted parameter,
  \<open>text/plain;title="a,b"\<close>, and whose bytes are \<open>ABC\<close>. Its data URL has two
  commas. The body of the generation request carries as \<open>file_content\<close> the text
  between the two, \<open>b";base64\<close>. That is not the text after the first comma of the
  data URL, and it is not the base64 payload \<open>QUJD\<close>, which is what the comment in
  the source says remains once the prefix is removed. The \<open>file_type\<close> is the
  declared media type.
\<close>

theorem generate_request_body_two_commas:
  \<open>file_type quoted_type_file = js ''text/plain;title="a,b"''
   \<and> readAsDataURL (sample_env (Inr quoted_type_url) (Inr JNull)) quoted_type_file
     = Inr (js ''data:text/plain;title="a,b";base64,QUJD'')
   \<and> requests (generateBtn_click
        (sample_env (Inr quoted_type_url) (Inr JNull))
        (sample_page [quoted_type_file] (JArr [])))
     = [\<lparr>url = js ''/api/generate_flashcards'', http_method = js ''POST'',
         headers = [(js ''Content-Type'', js ''application/json'')],
         body = Some (js ''{"file_content":"b'' @ [0x5C] @ js ''";base64","file_type":"text/plain;title=''
                      @ [0x5C] @ js ''"a,b'' @ [0x5C] @ js ''""}'')\<rparr>]
   \<and> JSON_stringify
         (JObj [(js ''file_content'', JStr (js ''b";base64'')),
                (js ''file_type'', JStr (file_type quoted_type_file))]) 0
     = Some (js ''{"file_content":"b'' @ [0x5C] @ js ''";base64","file_type":"text/plain;title=''
             @ [0x5C] @ js ''"a,b'' @ [0x5C] @ js ''""}'')
   \<and> text_after_first_comma quoted_type_url = js ''b";base64,QUJD''
   \<and> base64 (file_bytes quoted_type_file) = js ''QUJD''
   \<and> js ''b";base64'' \<noteq> text_after_first_comma quoted_type_url
   \<and> js ''b";base64'' \<noteq> base64 (file_bytes quoted_type_file)\<close>
  by (simp add: generate_request_def post_json_def JSON_stringify_def quoted_type_file_def
        quoted_type_url_def base64_unit_def base64_code_def
        element_at_def wrap_def QuoteJSONString_def quote_unit_def is_high_def is_low_def
        text_after_first_comma_def js_def generateBtn_click_def generate_try_def
        sample_page_def sample_env_def fileToBase64_def showLoading_def showError_def
        string_plus_def message_def json_headers_def)

end
